theory Spec2Isabelle
  imports
    Main
    "HOL-Library.Char_ord"
    "HOL-Library.List_Lexorder"
    "HOL-Library.Option_ord"
    "HOL-Library.Product_Lexorder"
    "HOL-Library.Multiset"
    "HOL-Library.Sublist"
    "HOL-Library.AList"
begin

chapter \<open>The post lifecycle of the social poster\<close>

section \<open>Values\<close>

text \<open>
  A Python \<open>str\<close> whose length matters (topic, summary, link, the text sent to a
  platform) is the list of its code points, so that \<open>length\<close> is Python's \<open>len\<close>.
  Identifiers that the code only compares for equality (statuses, platform names,
  actions) and the ISO-8601 timestamps are Isabelle strings; SQLite compares \<open>TEXT\<close>
  values bytewise, which is the lexicographic order of \<open>HOL-Library.List_Lexorder\<close>
  over \<open>HOL-Library.Char_ord\<close>.
\<close>

type_synonym pystr = "nat list"

definition py :: "string \<Rightarrow> pystr" where
  "py s = map of_char s"

text \<open>Python's truth value of an optional string: \<open>None\<close> and \<open>""\<close> are false.\<close>

definition truthy :: "'a list option \<Rightarrow> bool" where
  "truthy v = (case v of None \<Rightarrow> False | Some s \<Rightarrow> s \<noteq> [])"

text \<open>
  The exceptions the model raises. \<open>IntegrityError\<close> is SQLite's, for a violated
  foreign key; \<open>Raised t\<close> is an exception of class \<open>Exception\<close> thrown by an external
  collaborator (network, image library), with \<open>str(e) = t\<close>.
\<close>

datatype exn = IntegrityError | Raised string

fun str_exn :: "exn \<Rightarrow> string" where
  "str_exn IntegrityError = ''FOREIGN KEY constraint failed''"
| "str_exn (Raised t) = t"

section \<open>config.py\<close>

text \<open>
  The module's globals that the lifecycle reads, as one value handed to the operations
  that read them.
\<close>

record config =
  ENABLED_PLATFORMS :: "string list"
  AUTO_APPROVE :: bool
  DRY_RUN :: bool

section \<open>db.py: the item store\<close>

subsection \<open>Tables\<close>

text \<open>
  One record per table of \<open>init_db\<close>, one field per column; a nullable column is an
  option. The column \<open>posts.id\<close> is the field \<open>id'\<close>. The rows of \<open>platform_posts\<close> and
  \<open>audit_log\<close> are never read by their own row id, so the position in the list stands
  for it; a table is the list of its rows in insertion order.
\<close>

record post =
  id' :: int
  topic :: pystr
  summary :: pystr
  full_content :: "pystr option"
  link :: "pystr option"
  image_url :: "pystr option"
  video_url :: "pystr option"
  status :: string
  priority :: string
  approved_by :: "string option"
  approved_at :: "string option"
  approval_type :: "string option"
  rejection_reason :: "string option"
  source :: "string option"
  tags :: "string list"
  created_at :: string
  updated_at :: string
  scheduled_for :: "string option"
  completed_at :: "string option"
  error_message :: "string option"
  retry_count :: nat

record platform_post =
  pp_post_id :: int
  pp_platform :: string
  pp_status :: string
  pp_platform_post_id :: "string option"
  pp_platform_url :: "string option"
  pp_posted_at :: "string option"
  pp_error_message :: "string option"
  pp_retry_count :: nat
  pp_created_at :: string
  pp_updated_at :: string

text \<open>The JSON payload of an audit row, one constructor per \<open>json.dumps\<close> call.\<close>

datatype details =
  Created "string option" "string list" string
| StatusChange "string option" "string option" "string option"
| PlatformChange string "string option" "string option"

record audit_entry =
  al_post_id :: int
  al_action :: string
  al_details :: details
  al_timestamp :: string

record database =
  posts :: "post list"
  platform_posts :: "platform_post list"
  audit_log :: "audit_entry list"

definition init_db :: database where
  "init_db = \<lparr>posts = [], platform_posts = [], audit_log = []\<rparr>"

subsection \<open>Operations\<close>

text \<open>
  Every operation takes the reading \<open>now\<close> of the clock (\<open>_now()\<close>) as its first
  argument. \<open>get_connection\<close> commits on return and rolls back on an exception, so an
  operation either returns the new database or raises and leaves the database as it
  was. Failures of the storage itself (disk, locking) are not modelled.
\<close>

definition get_post :: "database \<Rightarrow> int \<Rightarrow> post option" where
  "get_post db post_id = find (\<lambda>p. id' p = post_id) (posts db)"

text \<open>
  \<open>cursor.lastrowid\<close> of an \<open>AUTOINCREMENT\<close> key in a table that is never deleted
  from: one more than the largest id, and 1 in an empty table.
\<close>

definition lastrowid :: "database \<Rightarrow> int" where
  "lastrowid db = fold max (map id' (posts db)) 0 + 1"

definition create_post ::
  "string \<Rightarrow> config \<Rightarrow> pystr \<Rightarrow> pystr \<Rightarrow> pystr option \<Rightarrow> pystr option \<Rightarrow>
   pystr option \<Rightarrow> pystr option \<Rightarrow> string \<Rightarrow> string option \<Rightarrow> string list \<Rightarrow>
   string option \<Rightarrow> database \<Rightarrow> int \<times> database" where
  "create_post now cfg topic' summary' full_content' link' image_url' video_url'
      priority' source' tags' scheduled_for' db =
    (let post_id = lastrowid db;
         row = \<lparr>id' = post_id, topic = topic', summary = summary',
                full_content = full_content', link = link', image_url = image_url',
                video_url = video_url', status = ''pending'', priority = priority',
                approved_by = None, approved_at = None, approval_type = None,
                rejection_reason = None, source = source', tags = tags',
                created_at = now, updated_at = now, scheduled_for = scheduled_for',
                completed_at = None, error_message = None, retry_count = 0\<rparr>;
         attempts = map (\<lambda>platform.
                \<lparr>pp_post_id = post_id, pp_platform = platform, pp_status = ''pending'',
                 pp_platform_post_id = None, pp_platform_url = None, pp_posted_at = None,
                 pp_error_message = None, pp_retry_count = 0,
                 pp_created_at = now, pp_updated_at = now\<rparr>) (ENABLED_PLATFORMS cfg);
         entry = \<lparr>al_post_id = post_id, al_action = ''created'',
                  al_details = Created source' (ENABLED_PLATFORMS cfg) priority',
                  al_timestamp = now\<rparr>
     in (post_id,
         \<lparr>posts = posts db @ [row],
          platform_posts = platform_posts db @ attempts,
          audit_log = audit_log db @ [entry]\<rparr>))"

text \<open>
  The \<open>UPDATE posts SET ... WHERE id = ?\<close> of \<open>update_post_status\<close> on one row: the
  \<open>fields\<close> list in the order the code builds it.
\<close>

definition set_post_fields ::
  "string \<Rightarrow> string \<Rightarrow> string option \<Rightarrow> string option \<Rightarrow> string option \<Rightarrow>
   string option \<Rightarrow> post \<Rightarrow> post" where
  "set_post_fields now status' approved_by' approval_type' rejection_reason' error_message' p =
    (let p1 = p\<lparr>status := status', updated_at := now\<rparr>;
         p2 = (if truthy approved_by' then p1\<lparr>approved_by := approved_by'\<rparr> else p1);
         p3 = (if truthy approval_type'
               then p2\<lparr>approval_type := approval_type', approved_at := Some now\<rparr> else p2);
         p4 = (if truthy rejection_reason'
               then p3\<lparr>rejection_reason := rejection_reason'\<rparr> else p3);
         p5 = (if truthy error_message' then p4\<lparr>error_message := error_message'\<rparr> else p4);
         p6 = (if status' = ''completed'' \<or> status' = ''partial_failure''
               then p5\<lparr>completed_at := Some now\<rparr> else p5)
     in p6)"

text \<open>
  \<open>update_post_status\<close>: the \<open>UPDATE\<close> rewrites every row with the id (none when
  there is no such post), then the audit row is inserted (\<open>write_post_status\<close>). The
  connection runs with \<open>PRAGMA foreign_keys=ON\<close> and \<open>audit_log.post_id\<close> references
  \<open>posts(id)\<close>, so the insert raises \<open>sqlite3.IntegrityError\<close> when the post does not
  exist, and the transaction is rolled back. The current status of the row is never
  read.
\<close>

definition write_post_status ::
  "string \<Rightarrow> int \<Rightarrow> string \<Rightarrow> string option \<Rightarrow> string option \<Rightarrow> string option \<Rightarrow>
   string option \<Rightarrow> database \<Rightarrow> database" where
  "write_post_status now post_id status' approved_by' approval_type' rejection_reason'
      error_message' db =
    db\<lparr>posts :=
         map (\<lambda>p. if id' p = post_id
                  then set_post_fields now status' approved_by' approval_type'
                         rejection_reason' error_message' p
                  else p) (posts db),
       audit_log := audit_log db @
         [\<lparr>al_post_id = post_id, al_action = status',
           al_details = StatusChange approved_by' approval_type' rejection_reason',
           al_timestamp = now\<rparr>]\<rparr>"

definition update_post_status ::
  "string \<Rightarrow> int \<Rightarrow> string \<Rightarrow> string option \<Rightarrow> string option \<Rightarrow> string option \<Rightarrow>
   string option \<Rightarrow> database \<Rightarrow> exn + database" where
  "update_post_status now post_id status' approved_by' approval_type' rejection_reason'
      error_message' db =
    (case get_post db post_id of
       None \<Rightarrow> Inl IntegrityError
     | Some _ \<Rightarrow> Inr (write_post_status now post_id status' approved_by' approval_type'
                        rejection_reason' error_message' db))"

text \<open>The \<open>UPDATE platform_posts SET ...\<close> of \<open>update_platform_status\<close> on one row.\<close>

definition set_platform_fields ::
  "string \<Rightarrow> string \<Rightarrow> string option \<Rightarrow> string option \<Rightarrow> string option \<Rightarrow>
   platform_post \<Rightarrow> platform_post" where
  "set_platform_fields now status' platform_post_id' platform_url' error_message' r =
    (let r1 = r\<lparr>pp_status := status', pp_updated_at := now\<rparr>;
         r2 = (if truthy platform_post_id'
               then r1\<lparr>pp_platform_post_id := platform_post_id'\<rparr> else r1);
         r3 = (if truthy platform_url' then r2\<lparr>pp_platform_url := platform_url'\<rparr> else r2);
         r4 = (if status' = ''published'' then r3\<lparr>pp_posted_at := Some now\<rparr> else r3);
         r5 = (if truthy error_message'
               then r4\<lparr>pp_error_message := error_message',
                       pp_retry_count := pp_retry_count r4 + 1\<rparr> else r4)
     in r5)"

text \<open>
  \<open>update_platform_status\<close>: the \<open>UPDATE\<close> of the rows of the post and platform and
  the \<open>INSERT\<close> of the audit row, and the commit or, when the post does not exist and
  the foreign key of the audit row fails, the rollback.
\<close>

definition write_platform_status ::
  "string \<Rightarrow> int \<Rightarrow> string \<Rightarrow> string \<Rightarrow> string option \<Rightarrow> string option \<Rightarrow>
   string option \<Rightarrow> database \<Rightarrow> database" where
  "write_platform_status now post_id platform status' platform_post_id' platform_url'
      error_message' db =
    db\<lparr>platform_posts :=
         map (\<lambda>r. if pp_post_id r = post_id \<and> pp_platform r = platform
                  then set_platform_fields now status' platform_post_id'
                         platform_url' error_message' r
                  else r) (platform_posts db),
       audit_log := audit_log db @
         [\<lparr>al_post_id = post_id, al_action = ''platform_'' @ status',
           al_details = PlatformChange platform platform_post_id' error_message',
           al_timestamp = now\<rparr>]\<rparr>"

definition update_platform_status ::
  "string \<Rightarrow> int \<Rightarrow> string \<Rightarrow> string \<Rightarrow> string option \<Rightarrow> string option \<Rightarrow>
   string option \<Rightarrow> database \<Rightarrow> exn + database" where
  "update_platform_status now post_id platform status' platform_post_id' platform_url'
      error_message' db =
    (case get_post db post_id of
       None \<Rightarrow> Inl IntegrityError
     | Some _ \<Rightarrow> Inr (write_platform_status now post_id platform status' platform_post_id'
                        platform_url' error_message' db))"

definition get_platform_statuses :: "database \<Rightarrow> int \<Rightarrow> platform_post list" where
  "get_platform_statuses db post_id = filter (\<lambda>r. pp_post_id r = post_id) (platform_posts db)"

text \<open>
  \<open>get_audit_log\<close>: the audit rows of a post, \<open>ORDER BY timestamp ASC\<close>. Rows with the
  same timestamp come back in insertion order here (SQLite leaves the order of ties
  open).
\<close>

definition get_audit_log :: "database \<Rightarrow> int \<Rightarrow> audit_entry list" where
  "get_audit_log db post_id =
     sort_key al_timestamp (filter (\<lambda>e. al_post_id e = post_id) (audit_log db))"

text \<open>
  \<open>get_pending_posts\<close>. The \<open>CASE priority\<close> expression is \<open>NULL\<close> for a priority
  other than the three names, and SQLite sorts \<open>NULL\<close> first in ascending order:
  \<open>None\<close> is the least element of \<open>HOL-Library.Option_ord\<close>. Rows with equal keys come
  back in insertion order here.
\<close>

definition priority_rank :: "string \<Rightarrow> nat option" where
  "priority_rank pr =
    (if pr = ''high'' then Some 1
     else if pr = ''normal'' then Some 2
     else if pr = ''low'' then Some 3
     else None)"

definition ready :: "string \<Rightarrow> post \<Rightarrow> bool" where
  "ready now p \<longleftrightarrow>
     (status p = ''approved'' \<or> status p = ''auto_approved'') \<and>
     (case scheduled_for p of None \<Rightarrow> True | Some t \<Rightarrow> t \<le> now)"

definition get_pending_posts :: "string \<Rightarrow> database \<Rightarrow> post list" where
  "get_pending_posts now db =
     sort_key (\<lambda>p. (priority_rank (priority p), created_at p)) (filter (ready now) (posts db))"

section \<open>platforms: the channel adapters\<close>

record PostResult =
  success :: bool
  platform :: string
  platform_post_id :: "string option"
  platform_url :: "string option"
  error_message' :: "string option"

text \<open>
  A subclass of \<open>BasePlatform\<close>: its name and its two abstract methods. Each method
  either returns a \<open>PostResult\<close> or raises; what it returns depends on the network,
  so the methods are part of the adapter value.
\<close>

record adapter =
  name :: string
  post_text :: "pystr \<Rightarrow> pystr option \<Rightarrow> exn + PostResult"
  post_image :: "pystr \<Rightarrow> pystr \<Rightarrow> pystr option \<Rightarrow> exn + PostResult"

text \<open>
  \<open>BasePlatform.post\<close>. The \<open>try\<close> block calls the image method when \<open>image_path\<close>
  is true and the text method otherwise; \<open>except Exception\<close> turns whatever the
  method raises into a failed \<open>PostResult\<close> carrying \<open>str(e)\<close>.
\<close>

definition post_try ::
  "adapter \<Rightarrow> pystr \<Rightarrow> pystr option \<Rightarrow> pystr option \<Rightarrow> exn + PostResult" where
  "post_try a text image_path link' =
    (case image_path of
       None \<Rightarrow> post_text a text link'
     | Some path \<Rightarrow> if path \<noteq> [] then post_image a text path link'
                    else post_text a text link')"

definition BasePlatform_post ::
  "adapter \<Rightarrow> pystr \<Rightarrow> pystr option \<Rightarrow> pystr option \<Rightarrow> PostResult" where
  "BasePlatform_post a text image_path link' =
    (case post_try a text image_path link' of
       Inr r \<Rightarrow> r
     | Inl e \<Rightarrow> \<lparr>success = False, platform = name a, platform_post_id = None,
                 platform_url = None, error_message' = Some (str_exn e)\<rparr>)"

subsection \<open>platforms/instagram.py\<close>

text \<open>
  \<open>InstagramPlatform.post_text\<close> talks to nobody: it returns the same failed result
  for every text. \<open>post_image\<close> goes through the Graph API and is the parameter.
\<close>

definition InstagramPlatform ::
  "(pystr \<Rightarrow> pystr \<Rightarrow> pystr option \<Rightarrow> exn + PostResult) \<Rightarrow> adapter" where
  "InstagramPlatform graph_api =
    \<lparr>name = ''instagram'',
     post_text = (\<lambda>text link'.
        Inr \<lparr>success = False, platform = ''instagram'', platform_post_id = None,
             platform_url = None,
             error_message' = Some ''Instagram requires an image for posting''\<rparr>),
     post_image = graph_api\<rparr>"

subsection \<open>platforms/twitter.py\<close>

text \<open>Python's \<open>s[:k]\<close>: a negative \<open>k\<close> counts from the end.\<close>

definition slice_to :: "'a list \<Rightarrow> int \<Rightarrow> 'a list" where
  "slice_to s k = (if k < 0 then take (nat (int (length s) + k)) s else take (nat k) s)"

definition NL :: nat where
  "NL = 10"

text \<open>\<open>TwitterPlatform._truncate\<close>; the link is only read when it is true.\<close>

definition truncate' :: "pystr \<Rightarrow> pystr option \<Rightarrow> int \<Rightarrow> pystr" where
  "truncate' text link' max_len =
    (case link' of
       Some l \<Rightarrow>
         if l \<noteq> [] then
           (let available = max_len - 24;
                text' = (if int (length text) > available
                         then slice_to text (available - 3) @ py ''...'' else text)
            in text' @ [NL] @ l)
         else if int (length text) > max_len
              then slice_to text (max_len - 3) @ py ''...'' else text
     | None \<Rightarrow>
         if int (length text) > max_len
         then slice_to text (max_len - 3) @ py ''...'' else text)"

text \<open>
  \<open>TwitterPlatform\<close>. \<open>create_tweet text with_media\<close> is the call of the tweepy
  client: it raises, or returns the id of the tweet, or returns no data.
  \<open>media_upload\<close> is the v1.1 upload. A \<open>TweepyException\<close> is caught in the method and
  any other exception in \<open>BasePlatform.post\<close>; both end in the same failed result, so
  the model lets every exception pass to \<open>BasePlatform.post\<close>.
\<close>

definition tweet_result :: "exn + string option \<Rightarrow> exn + PostResult" where
  "tweet_result response =
    (case response of
       Inl e \<Rightarrow> Inl e
     | Inr (Some tweet_id) \<Rightarrow>
         Inr \<lparr>success = True, platform = ''twitter'', platform_post_id = Some tweet_id,
              platform_url = Some (''https://twitter.com/i/status/'' @ tweet_id),
              error_message' = None\<rparr>
     | Inr None \<Rightarrow>
         Inr \<lparr>success = False, platform = ''twitter'', platform_post_id = None,
              platform_url = None,
              error_message' = Some ''No response data from Twitter''\<rparr>)"

definition dry_run_result :: "string \<Rightarrow> PostResult" where
  "dry_run_result n =
    \<lparr>success = True, platform = n, platform_post_id = Some ''dry_run'',
     platform_url = None, error_message' = None\<rparr>"

definition TwitterPlatform ::
  "config \<Rightarrow> (pystr \<Rightarrow> bool \<Rightarrow> exn + string option) \<Rightarrow> (pystr \<Rightarrow> exn option) \<Rightarrow> adapter" where
  "TwitterPlatform cfg create_tweet media_upload =
    \<lparr>name = ''twitter'',
     post_text = (\<lambda>text link'.
        let tweet_text = truncate' text link' 280
        in if DRY_RUN cfg then Inr (dry_run_result ''twitter'')
           else tweet_result (create_tweet tweet_text False)),
     post_image = (\<lambda>text image_path link'.
        if DRY_RUN cfg then Inr (dry_run_result ''twitter'')
        else case media_upload image_path of
               Some e \<Rightarrow> Inl e
             | None \<Rightarrow> tweet_result (create_tweet (truncate' text link' 280) True))\<rparr>"

subsection \<open>platforms/__init__.py\<close>

text \<open>
  \<open>registry n\<close> is the cached instance of the class \<open>_REGISTRY\<close> has for \<open>n\<close>, if it
  has one. \<open>get_all_enabled\<close> fills a dict in the order of \<open>ENABLED_PLATFORMS\<close>; a
  dict keeps a key where it was first inserted, which is \<open>AList.update\<close>.
\<close>

definition get_platform :: "config \<Rightarrow> (string \<Rightarrow> adapter option) \<Rightarrow> string \<Rightarrow> adapter option" where
  "get_platform cfg registry n =
    (if n \<in> set (ENABLED_PLATFORMS cfg) then registry n else None)"

definition get_all_enabled ::
  "config \<Rightarrow> (string \<Rightarrow> adapter option) \<Rightarrow> (string \<times> adapter) list" where
  "get_all_enabled cfg registry =
    fold (\<lambda>n result. case get_platform cfg registry n of
                        None \<Rightarrow> result
                      | Some a \<Rightarrow> AList.update n a result)
         (ENABLED_PLATFORMS cfg) []"

section \<open>poster.py: the dispatch engine\<close>

subsection \<open>The text for a platform\<close>

text \<open>The value of an optional string where the code has found it true.\<close>

definition the_str :: "pystr option \<Rightarrow> pystr" where
  "the_str v = (case v of None \<Rightarrow> [] | Some s \<Rightarrow> s)"

text \<open>
  The mark that \<open>_build_post_text\<close> puts before a link: the four characters the
  source file holds there (U+00F0, U+0178, U+201D, U+2014).
\<close>

definition link_mark :: pystr where
  "link_mark = [240, 376, 8221, 8212]"

text \<open>\<open>Poster._build_post_text\<close>.\<close>

definition build_post_text :: "post \<Rightarrow> string \<Rightarrow> pystr" where
  "build_post_text p plat =
    (let text = topic p @ [NL, NL] @ summary p;
         with_content = (if truthy (full_content p)
                         then text @ [NL, NL] @ the_str (full_content p) else text)
     in if plat = ''twitter'' then
          (let max_text = (if truthy (link p) then 253 else 280)
           in if int (length text) > max_text
              then topic p @ [NL, NL]
                   @ slice_to (summary p) (max_text - int (length (topic p)) - 5)
                   @ py ''...''
              else text)
        else if plat = ''instagram'' then
          slice_to (if truthy (link p)
                    then with_content @ [NL, NL] @ link_mark @ py '' Link in bio''
                    else with_content) 2200
        else if plat = ''linkedin'' then
          slice_to with_content 3000
        else
          slice_to (if truthy (link p)
                    then with_content @ [NL, NL] @ link_mark @ py '' '' @ the_str (link p)
                    else with_content) 5000)"

subsection \<open>State and collaborators\<close>

text \<open>One entry of the \<open>results\<close> list of \<open>_do_post\<close>.\<close>

record result_row =
  rr_platform :: string
  rr_status :: string
  rr_platform_url :: "string option"
  rr_error_message :: "string option"

text \<open>
  What a run does to the world outside the database, in the order it does it: the
  calls of the channel adapters, the alerts of \<open>notifier/alerts.py\<close> (which catch
  their own exceptions and never raise), the media download and the two summaries.
  Log lines are not recorded.
\<close>

datatype effect =
  PlatformCall string pystr "pystr option" "pystr option"
| MediaProcessing pystr
| AlertPostFailed int string "string option"
| AlertAllPlatformsFailed int
| AlertCrashed int string
| SlackResult post "result_row list"
| TelegramSummary int "result_row list"

text \<open>
  The collaborators of a \<open>Poster\<close>: the configuration, the platform registry, the
  media processor (its dict of paths, \<open>None\<close> for a platform it could not serve), the
  two summary senders (the exception they raise, if any) and the clock. Every reading
  of the clock during one run returns \<open>now\<close>.
\<close>

record env =
  cfg :: config
  registry :: "string \<Rightarrow> adapter option"
  process_for_all_platforms :: "pystr \<Rightarrow> exn + (string \<Rightarrow> pystr option option)"
  slack_send_result :: "post \<Rightarrow> result_row list \<Rightarrow> exn option"
  telegram_send_message :: "int \<Rightarrow> result_row list \<Rightarrow> exn option"
  now :: string

record poster =
  db :: database
  posting_in_progress :: "int set"
  effects :: "effect list"

subsection \<open>\<open>Poster._do_post\<close>\<close>

text \<open>
  The body of the \<open>try\<close> block is cut into its four stages. A stage returns the
  exception that left it (\<open>Inl\<close>) or its value, and the state as it stood then.
\<close>

text \<open>Lines 135--139: the media step.\<close>

definition process_media ::
  "env \<Rightarrow> post \<Rightarrow> poster \<Rightarrow> (exn + (string \<Rightarrow> pystr option option)) \<times> poster" where
  "process_media E p s =
    (if truthy (image_url p)
     then (process_for_all_platforms E (the_str (image_url p)),
           s\<lparr>effects := effects s @ [MediaProcessing (the_str (image_url p))]\<rparr>)
     else (Inr (\<lambda>n. None), s))"

text \<open>Lines 152--158: the image handed to a platform.\<close>

definition image_path_for ::
  "(string \<Rightarrow> pystr option option) \<Rightarrow> post \<Rightarrow> string \<Rightarrow> pystr option" where
  "image_path_for processed_images p n =
    (case processed_images n of
       Some (Some path) \<Rightarrow> Some path
     | _ \<Rightarrow> if truthy (image_url p) then image_url p else None)"

text \<open>
  Lines 146--200: the body of the loop for one platform. It returns the entry it
  appends to \<open>results\<close> and whether it counts a success.
\<close>

definition post_to_platform ::
  "env \<Rightarrow> int \<Rightarrow> post \<Rightarrow> (string \<Rightarrow> pystr option option) \<Rightarrow> string \<Rightarrow> adapter \<Rightarrow> poster \<Rightarrow>
   (exn + result_row \<times> bool) \<times> poster" where
  "post_to_platform E post_id p processed_images n a s =
    (let text = build_post_text p n;
         image_path = image_path_for processed_images p n
     in case update_platform_status (now E) post_id n ''posting'' None None None (db s) of
          Inl e \<Rightarrow> (Inl e, s)
        | Inr d1 \<Rightarrow>
           (let s1 = s\<lparr>db := d1,
                        effects := effects s @ [PlatformCall n text image_path (link p)]\<rparr>;
                result = BasePlatform_post a text image_path (link p);
                row = \<lparr>rr_platform = n,
                       rr_status = (if success result then ''published'' else ''failed''),
                       rr_platform_url = platform_url result,
                       rr_error_message = error_message' result\<rparr>
            in if success result then
                 (case update_platform_status (now E) post_id n ''published''
                         (platform_post_id result) (platform_url result) None (db s1) of
                    Inl e \<Rightarrow> (Inl e, s1)
                  | Inr d2 \<Rightarrow> (Inr (row, True), s1\<lparr>db := d2\<rparr>))
               else
                 (case update_platform_status (now E) post_id n ''failed'' None None
                         (error_message' result) (db s1) of
                    Inl e \<Rightarrow> (Inl e, s1)
                  | Inr d2 \<Rightarrow>
                      (Inr (row, False),
                       s1\<lparr>db := d2,
                          effects := effects s1
                            @ [AlertPostFailed post_id n (error_message' result)]\<rparr>))))"

text \<open>
  The loop over the enabled platforms, with the accumulators \<open>results\<close>,
  \<open>success_count\<close> and \<open>total_count\<close>; an exception ends it.
\<close>

fun post_to_platforms ::
  "env \<Rightarrow> int \<Rightarrow> post \<Rightarrow> (string \<Rightarrow> pystr option option) \<Rightarrow> (string \<times> adapter) list \<Rightarrow>
   result_row list \<Rightarrow> nat \<Rightarrow> nat \<Rightarrow> poster \<Rightarrow>
   (exn + result_row list \<times> nat \<times> nat) \<times> poster" where
  "post_to_platforms E post_id p processed_images [] results success_count total_count s =
     (Inr (results, success_count, total_count), s)"
| "post_to_platforms E post_id p processed_images ((n, a) # rest) results success_count
      total_count s =
    (case post_to_platform E post_id p processed_images n a s of
       (Inl e, s1) \<Rightarrow> (Inl e, s1)
     | (Inr (row, ok), s1) \<Rightarrow>
         post_to_platforms E post_id p processed_images rest (results @ [row])
           (if ok then success_count + 1 else success_count) (total_count + 1) s1)"

text \<open>Lines 202--216: the overall status.\<close>

definition overall_status :: "nat \<Rightarrow> nat \<Rightarrow> string" where
  "overall_status success_count total_count =
    (if success_count = total_count then ''completed''
     else if success_count > 0 then ''partial_failure''
     else ''failed'')"

definition update_overall :: "env \<Rightarrow> int \<Rightarrow> nat \<Rightarrow> nat \<Rightarrow> poster \<Rightarrow> (exn + unit) \<times> poster" where
  "update_overall E post_id success_count total_count s =
    (case update_post_status (now E) post_id (overall_status success_count total_count)
            None None None None (db s) of
       Inl e \<Rightarrow> (Inl e, s)
     | Inr d \<Rightarrow>
         (Inr (),
          if overall_status success_count total_count = ''failed''
          then s\<lparr>db := d, effects := effects s @ [AlertAllPlatformsFailed post_id]\<rparr>
          else s\<lparr>db := d\<rparr>))"

text \<open>Lines 218--230: the summaries to Slack and Telegram.\<close>

definition send_summaries :: "env \<Rightarrow> int \<Rightarrow> result_row list \<Rightarrow> poster \<Rightarrow> (exn + unit) \<times> poster" where
  "send_summaries E post_id results s =
    (let after_slack =
           (case get_post (db s) post_id of
              None \<Rightarrow> (None, s)
            | Some p \<Rightarrow> (slack_send_result E p results,
                         s\<lparr>effects := effects s @ [SlackResult p results]\<rparr>))
     in case fst after_slack of
          Some e \<Rightarrow> (Inl e, snd after_slack)
        | None \<Rightarrow>
            (let s2 = (snd after_slack)\<lparr>effects := effects (snd after_slack)
                                              @ [TelegramSummary post_id results]\<rparr>
             in case telegram_send_message E post_id results of
                  Some e \<Rightarrow> (Inl e, s2)
                | None \<Rightarrow> (Inr (), s2)))"

text \<open>Lines 128--230: the \<open>try\<close> block.\<close>

definition do_post_try :: "env \<Rightarrow> int \<Rightarrow> poster \<Rightarrow> (exn + unit) \<times> poster" where
  "do_post_try E post_id s =
    (case get_post (db s) post_id of
       None \<Rightarrow> (Inr (), s)
     | Some p \<Rightarrow>
        (case update_post_status (now E) post_id ''posting'' None None None None (db s) of
           Inl e \<Rightarrow> (Inl e, s)
         | Inr d \<Rightarrow>
            (case process_media E p (s\<lparr>db := d\<rparr>) of
               (Inl e, s1) \<Rightarrow> (Inl e, s1)
             | (Inr processed_images, s1) \<Rightarrow>
                (case post_to_platforms E post_id p processed_images
                        (get_all_enabled (cfg E) (registry E)) [] 0 0 s1 of
                   (Inl e, s2) \<Rightarrow> (Inl e, s2)
                 | (Inr (results, success_count, total_count), s2) \<Rightarrow>
                    (case update_overall E post_id success_count total_count s2 of
                       (Inl e, s3) \<Rightarrow> (Inl e, s3)
                     | (Inr u, s3) \<Rightarrow> send_summaries E post_id results s3)))))"

text \<open>
  Lines 232--241: the \<open>except Exception\<close> handler. Its own database call can raise,
  and then the exception leaves \<open>_do_post\<close>.
\<close>

definition do_post_except :: "env \<Rightarrow> int \<Rightarrow> exn \<Rightarrow> poster \<Rightarrow> (exn + unit) \<times> poster" where
  "do_post_except E post_id e s =
    (case update_post_status (now E) post_id ''failed'' None None None (Some (str_exn e))
            (db s) of
       Inl e' \<Rightarrow> (Inl e', s)
     | Inr d \<Rightarrow> (Inr (), s\<lparr>db := d, effects := effects s @ [AlertCrashed post_id (str_exn e)]\<rparr>))"

text \<open>
  \<open>_do_post\<close>: the guard, the \<open>try\<close> block, the handler, and the \<open>finally\<close> clause
  that discards the id on every way out. The result is the exception that leaves the
  method, if any, and the state.
\<close>

definition do_post :: "env \<Rightarrow> int \<Rightarrow> poster \<Rightarrow> (exn + unit) \<times> poster" where
  "do_post E post_id s =
    (if post_id \<in> posting_in_progress s then (Inr (), s)
     else
       (let s0 = s\<lparr>posting_in_progress := insert post_id (posting_in_progress s)\<rparr>;
            tried = do_post_try E post_id s0;
            handled = (case fst tried of
                         Inr u \<Rightarrow> tried
                       | Inl e \<Rightarrow> do_post_except E post_id e (snd tried))
        in (fst handled,
            (snd handled)\<lparr>posting_in_progress :=
                             posting_in_progress (snd handled) - {post_id}\<rparr>)))"

section \<open>approval/telegram_bot.py: the approval orchestrator\<close>

subsection \<open>Reading the callback data\<close>

text \<open>\<open>str.split(sep)\<close> for a separator of one character: never the empty list.\<close>

fun split :: "char \<Rightarrow> string \<Rightarrow> string list" where
  "split c [] = [[]]"
| "split c (x # xs) =
     (if x = c then [] # split c xs
      else (x # hd (split c xs)) # tl (split c xs))"

text \<open>
  \<open>int(s)\<close> for a string of ASCII characters: white space around (the space and the
  characters 9 to 13, the ones \<open>int\<close> skips in an ASCII string), an optional sign,
  decimal digits with single underscores between them. Python also reads the decimal
  digits and the white space of other scripts; this function yields \<open>None\<close>
  (\<open>ValueError\<close>) for them.
\<close>

definition is_space :: "char \<Rightarrow> bool" where
  "is_space c \<longleftrightarrow> (9 \<le> (of_char c :: nat) \<and> (of_char c :: nat) \<le> 13)
                 \<or> (of_char c :: nat) = 32"

definition is_digit :: "char \<Rightarrow> bool" where
  "is_digit c \<longleftrightarrow> 48 \<le> (of_char c :: nat) \<and> (of_char c :: nat) \<le> 57"

fun digits :: "string \<Rightarrow> nat \<Rightarrow> nat option" where
  "digits [] acc = Some acc"
| "digits (c # cs) acc =
    (if is_digit c then digits cs (10 * acc + (of_char c - 48))
     else if c = CHR ''_'' then
       (case cs of
          [] \<Rightarrow> None
        | d # ds \<Rightarrow> if is_digit d then digits cs acc else None)
     else None)"

definition unsigned :: "string \<Rightarrow> nat option" where
  "unsigned s = (case s of [] \<Rightarrow> None | c # cs \<Rightarrow> if is_digit c then digits s 0 else None)"

definition strip :: "string \<Rightarrow> string" where
  "strip s = rev (dropWhile is_space (rev (dropWhile is_space s)))"

definition py_int :: "string \<Rightarrow> int option" where
  "py_int s =
    (case strip s of
       [] \<Rightarrow> None
     | c # cs \<Rightarrow>
         if c = CHR ''-'' then map_option (\<lambda>n. - int n) (unsigned cs)
         else if c = CHR ''+'' then map_option int (unsigned cs)
         else map_option int (unsigned (c # cs)))"

subsection \<open>State\<close>

text \<open>
  An entry of \<open>_pending_approvals\<close>: the post, and whether the entry has a
  \<open>"timer"\<close> key. The two continuations are opaque callables; the model records each
  call of one as \<open>OnApproved\<close> or \<open>OnRejected\<close> and takes the call to return.
\<close>

record approval =
  ap_post_id :: int
  ap_timer :: bool

datatype notice = Approved | Rejected | AutoApproved

datatype bot_effect =
  ApprovalRequest int
| EditMessage int notice
| OnApproved int
| OnRejected int

text \<open>
  \<open>timers\<close> holds the \<open>threading.Timer\<close> objects that are started and neither
  cancelled nor run yet, by the message id they were armed for, with the post id
  they will pass to \<open>_auto_approve\<close>.
\<close>

record bot =
  pending_approvals :: "int \<Rightarrow> approval option"
  timers :: "int \<Rightarrow> int option"
  store :: database
  bot_effects :: "bot_effect list"

datatype bot_exn = IndexError | ValueError | DatabaseError exn

subsection \<open>Operations\<close>

text \<open>
  \<open>send_approval_request\<close>; \<open>sent\<close> is what \<open>send_message\<close> returned, the id of the
  new message or \<open>None\<close>. The result is the method's boolean.
\<close>

definition send_approval_request :: "config \<Rightarrow> int option \<Rightarrow> int \<Rightarrow> bot \<Rightarrow> bool \<times> bot" where
  "send_approval_request c sent post_id b =
    (case get_post (store b) post_id of
       None \<Rightarrow> (False, b)
     | Some p \<Rightarrow>
        (let b1 = b\<lparr>bot_effects := bot_effects b @ [ApprovalRequest post_id]\<rparr>
         in case sent of
              None \<Rightarrow> (False, b1)
            | Some msg_id \<Rightarrow>
                if msg_id = 0 then (False, b1)
                else if AUTO_APPROVE c then
                  (True, b1\<lparr>pending_approvals := (pending_approvals b1)
                                (msg_id := Some \<lparr>ap_post_id = post_id, ap_timer = True\<rparr>),
                             timers := (timers b1)(msg_id := Some post_id)\<rparr>)
                else
                  (True, b1\<lparr>pending_approvals := (pending_approvals b1)
                                (msg_id := Some \<lparr>ap_post_id = post_id, ap_timer = False\<rparr>)\<rparr>)))"

text \<open>\<open>_auto_approve\<close>, run by the timer's thread.\<close>

definition auto_approve :: "string \<Rightarrow> int \<Rightarrow> int \<Rightarrow> bot \<Rightarrow> (bot_exn + unit) \<times> bot" where
  "auto_approve t msg_id post_id b =
    (case pending_approvals b msg_id of
       None \<Rightarrow> (Inr (), b)
     | Some a \<Rightarrow>
        (let b1 = b\<lparr>pending_approvals := (pending_approvals b)(msg_id := None),
                     bot_effects := bot_effects b @ [EditMessage msg_id AutoApproved]\<rparr>
         in case update_post_status t post_id ''auto_approved'' (Some ''system'')
                   (Some ''timeout'') None None (store b1) of
              Inl e \<Rightarrow> (Inl (DatabaseError e), b1)
            | Inr d \<Rightarrow>
                (Inr (), b1\<lparr>store := d,
                            bot_effects := bot_effects b1 @ [OnApproved post_id]\<rparr>)))"

text \<open>
  The timer of a message runs out: a timer that is still waiting calls
  \<open>_auto_approve\<close> with the arguments it was armed with; a cancelled one does
  nothing.
\<close>

definition timer_expires :: "string \<Rightarrow> int \<Rightarrow> bot \<Rightarrow> (bot_exn + unit) \<times> bot" where
  "timer_expires t msg_id b =
    (case timers b msg_id of
       None \<Rightarrow> (Inr (), b)
     | Some post_id \<Rightarrow> auto_approve t msg_id post_id (b\<lparr>timers := (timers b)(msg_id := None)\<rparr>))"

text \<open>\<open>process_callback\<close>, run by the polling thread for a pressed button.\<close>

definition process_callback :: "string \<Rightarrow> string \<Rightarrow> int \<Rightarrow> bot \<Rightarrow> (bot_exn + unit) \<times> bot" where
  "process_callback t callback_data msg_id b =
    (let parts = split CHR '':'' callback_data;
         action = hd parts
     in if length parts < 2 then (Inl IndexError, b)
        else case py_int (parts ! 1) of
          None \<Rightarrow> (Inl ValueError, b)
        | Some post_id \<Rightarrow>
           (case pending_approvals b msg_id of
              None \<Rightarrow> (Inr (), b)
            | Some a \<Rightarrow>
               (let b1 = b\<lparr>timers := (if ap_timer a then (timers b)(msg_id := None)
                                       else timers b),
                            pending_approvals := (pending_approvals b)(msg_id := None)\<rparr>
                in if action = ''approve'' then
                     (let b2 = b1\<lparr>bot_effects := bot_effects b1 @ [EditMessage msg_id Approved]\<rparr>
                      in case update_post_status t post_id ''approved'' (Some ''telegram_user'')
                                (Some ''manual'') None None (store b2) of
                           Inl e \<Rightarrow> (Inl (DatabaseError e), b2)
                         | Inr d \<Rightarrow>
                             (Inr (), b2\<lparr>store := d,
                                         bot_effects := bot_effects b2 @ [OnApproved post_id]\<rparr>))
                   else if action = ''reject'' then
                     (let b2 = b1\<lparr>bot_effects := bot_effects b1 @ [EditMessage msg_id Rejected]\<rparr>
                      in case update_post_status t post_id ''rejected'' None None
                                (Some ''Manually rejected via Telegram'') None (store b2) of
                           Inl e \<Rightarrow> (Inl (DatabaseError e), b2)
                         | Inr d \<Rightarrow>
                             (Inr (), b2\<lparr>store := d,
                                         bot_effects := bot_effects b2 @ [OnRejected post_id]\<rparr>))
                   else (Inr (), b1))))"

text \<open>
  What can happen to a bot after a request was sent, one thread at a time: a button
  press arrives, or the timer of a message runs out. An exception ends the handler
  that raised it (the polling loop and the timer thread both survive or end without
  touching the state), so a run keeps the state and goes on.
\<close>

datatype event = Callback string int | TimerExpires int

fun handle_event :: "string \<Rightarrow> event \<Rightarrow> bot \<Rightarrow> bot" where
  "handle_event t (Callback callback_data msg_id) b = snd (process_callback t callback_data msg_id b)"
| "handle_event t (TimerExpires msg_id) b = snd (timer_expires t msg_id b)"

definition run_events :: "string \<Rightarrow> event list \<Rightarrow> bot \<Rightarrow> bot" where
  "run_events t evs b = fold (handle_event t) evs b"

text \<open>The continuations a state has seen run for a post.\<close>

definition continuations :: "int \<Rightarrow> bot \<Rightarrow> bot_effect list" where
  "continuations post_id b =
     filter (\<lambda>e. e = OnApproved post_id \<or> e = OnRejected post_id) (bot_effects b)"

section \<open>The state machine of the specification\<close>

text \<open>
  The transitions of section 4.1 of the specification, in its words: \<open>pending\<close> to
  \<open>approved\<close> or \<open>auto_approved\<close>, those to \<open>posting\<close>, \<open>posting\<close> to \<open>completed\<close>,
  \<open>partial_failure\<close> or \<open>failed\<close>, and \<open>pending\<close> to \<open>rejected\<close>. This relation is the specification's; no
  function of \<open>db.py\<close> mentions it.
\<close>

definition spec_transition :: "string \<Rightarrow> string \<Rightarrow> bool" where
  "spec_transition a b \<longleftrightarrow>
     (a = ''pending'' \<and> (b = ''approved'' \<or> b = ''auto_approved'' \<or> b = ''rejected'')) \<or>
     ((a = ''approved'' \<or> a = ''auto_approved'') \<and> b = ''posting'') \<or>
     (a = ''posting'' \<and> (b = ''completed'' \<or> b = ''partial_failure'' \<or> b = ''failed''))"

section \<open>Example states\<close>

text \<open>Running one database operation after another, stopping at the first exception.\<close>

definition and_then :: "exn + database \<Rightarrow> (database \<Rightarrow> exn + database) \<Rightarrow> exn + database" where
  "and_then r f = (case r of Inl e \<Rightarrow> Inl e | Inr d \<Rightarrow> f d)"

text \<open>The row of a post and the audit trail as an operation left them.\<close>

definition post_after :: "exn + database \<Rightarrow> int \<Rightarrow> post option" where
  "post_after r post_id = (case r of Inl e \<Rightarrow> None | Inr d \<Rightarrow> get_post d post_id)"

definition actions_after :: "exn + database \<Rightarrow> int \<Rightarrow> string list" where
  "actions_after r post_id =
     (case r of Inl e \<Rightarrow> [] | Inr d \<Rightarrow> map al_action (get_audit_log d post_id))"

definition example_config :: config where
  "example_config =
     \<lparr>ENABLED_PLATFORMS = [''facebook'', ''twitter''], AUTO_APPROVE = True, DRY_RUN = False\<rparr>"

text \<open>A post as the webhook creates it, with a priority and a not-before time.\<close>

definition add_post :: "string \<Rightarrow> string \<Rightarrow> string option \<Rightarrow> database \<Rightarrow> database" where
  "add_post t pr not_before d =
     snd (create_post t example_config (py ''Topic'') (py ''Summary'') (Some []) (Some [])
            (Some []) (Some []) pr (Some ''webhook'') [] not_before d)"

definition one_pending :: database where
  "one_pending = add_post ''2024-05-01T09:00:00+00:00'' ''normal'' None init_db"

text \<open>The same post after a manual approval and the start of its dispatch.\<close>

definition one_posting :: "exn + database" where
  "one_posting =
     and_then
       (update_post_status ''2024-05-01T09:01:00+00:00'' 1 ''approved''
          (Some ''telegram_user'') (Some ''manual'') None None one_pending)
       (update_post_status ''2024-05-01T09:01:01+00:00'' 1 ''posting'' None None None None)"

text \<open>
  Four approved posts created a minute apart: low, high and normal priority, and a
  high-priority one that must not go out before noon.
\<close>

definition approve :: "int \<Rightarrow> database \<Rightarrow> exn + database" where
  "approve post_id =
     update_post_status ''2024-05-01T09:30:00+00:00'' post_id ''approved''
       (Some ''admin'') (Some ''manual'') None None"

definition four_approved :: "exn + database" where
  "four_approved =
     and_then (and_then (and_then (and_then
       (Inr (add_post ''2024-05-01T09:03:00+00:00'' ''high'' (Some ''2024-05-01T12:00:00+00:00'')
            (add_post ''2024-05-01T09:02:00+00:00'' ''normal'' None
            (add_post ''2024-05-01T09:01:00+00:00'' ''high'' None
            (add_post ''2024-05-01T09:00:00+00:00'' ''low'' None init_db)))))
       (approve 1)) (approve 2)) (approve 3)) (approve 4)"

definition pending_ids :: "string \<Rightarrow> exn + database \<Rightarrow> int list" where
  "pending_ids t r = (case r of Inl e \<Rightarrow> [] | Inr d \<Rightarrow> map id' (get_pending_posts t d))"

definition pending_priorities :: "string \<Rightarrow> exn + database \<Rightarrow> string list" where
  "pending_priorities t r =
     (case r of Inl e \<Rightarrow> [] | Inr d \<Rightarrow> map priority (get_pending_posts t d))"

text \<open>
  The text of the tweet for a post: \<open>_do_post\<close> hands \<open>_build_post_text(post,
  "twitter")\<close> and the link of the post to \<open>TwitterPlatform.post\<close>, whose two methods
  pass \<open>_truncate(text, link)\<close> to \<open>create_tweet\<close>.
\<close>

definition tweet_text :: "post \<Rightarrow> pystr" where
  "tweet_text p = truncate' (build_post_text p ''twitter'') (link p) 280"

text \<open>A post with a topic of 10, a summary of 300 and a link of 43 characters.\<close>

definition launch_post :: post where
  "launch_post =
    \<lparr>id' = 1, topic = py ''Launch day'', summary = replicate 300 (of_char CHR ''a''),
     full_content = Some [], link = Some (py ''https://example.com/articles/2024/05/launch''),
     image_url = Some [], video_url = Some [], status = ''approved'', priority = ''normal'',
     approved_by = Some ''telegram_user'', approved_at = Some ''2024-05-01T09:01:00+00:00'',
     approval_type = Some ''manual'', rejection_reason = None, source = Some ''webhook'',
     tags = [], created_at = ''2024-05-01T09:00:00+00:00'',
     updated_at = ''2024-05-01T09:01:00+00:00'', scheduled_for = None, completed_at = None,
     error_message = None, retry_count = 0\<rparr>"

text \<open>The same post with a link of 19 characters.\<close>

definition short_link_post :: post where
  "short_link_post = launch_post\<lparr>link := Some (py ''https://t.co/launch'')\<rparr>"

section \<open>Reading a run\<close>

text \<open>
  What the adapter of a platform answers for a post, given the processed images; the
  names of the platforms called, in the order of the calls; the status of a post and
  the rows of a channel in a state.
\<close>

definition adapter_result ::
  "post \<Rightarrow> (string \<Rightarrow> pystr option option) \<Rightarrow> string \<times> adapter \<Rightarrow> PostResult" where
  "adapter_result p processed_images na =
     BasePlatform_post (snd na) (build_post_text p (fst na))
       (image_path_for processed_images p (fst na)) (link p)"

fun platform_calls :: "effect list \<Rightarrow> string list" where
  "platform_calls [] = []"
| "platform_calls (PlatformCall n t i l # es) = n # platform_calls es"
| "platform_calls (e # es) = platform_calls es"

definition status_of :: "poster \<Rightarrow> int \<Rightarrow> string option" where
  "status_of s post_id = map_option status (get_post (db s) post_id)"

definition attempts_of :: "poster \<Rightarrow> int \<Rightarrow> string \<Rightarrow> platform_post list" where
  "attempts_of s post_id n =
     filter (\<lambda>r. pp_post_id r = post_id \<and> pp_platform r = n) (platform_posts (db s))"

text \<open>
  The entry of \<open>results\<close> that the answer of an adapter leads to, and the number of
  platforms of a list whose adapter answers with success.
\<close>

definition outcome_row ::
  "post \<Rightarrow> (string \<Rightarrow> pystr option option) \<Rightarrow> string \<times> adapter \<Rightarrow> result_row" where
  "outcome_row p processed_images na =
     \<lparr>rr_platform = fst na,
      rr_status = (if success (adapter_result p processed_images na)
                   then ''published'' else ''failed''),
      rr_platform_url = platform_url (adapter_result p processed_images na),
      rr_error_message = error_message' (adapter_result p processed_images na)\<rparr>"

definition successes ::
  "post \<Rightarrow> (string \<Rightarrow> pystr option option) \<Rightarrow> (string \<times> adapter) list \<Rightarrow> nat" where
  "successes p processed_images pls =
     length (filter (\<lambda>na. success (adapter_result p processed_images na)) pls)"

section \<open>Example runs of the dispatch engine\<close>

text \<open>
  Configurations with instagram alone, with twitter and instagram, and with no
  platform at all.
\<close>

definition instagram_only :: config where
  "instagram_only =
     \<lparr>ENABLED_PLATFORMS = [''instagram''], AUTO_APPROVE = True, DRY_RUN = False\<rparr>"

definition twitter_and_instagram :: config where
  "twitter_and_instagram =
     \<lparr>ENABLED_PLATFORMS = [''twitter'', ''instagram''], AUTO_APPROVE = True, DRY_RUN = False\<rparr>"

definition no_platforms :: config where
  "no_platforms = \<lparr>ENABLED_PLATFORMS = [], AUTO_APPROVE = True, DRY_RUN = False\<rparr>"

text \<open>
  A registry whose Graph API is unreachable and whose tweepy client was never
  initialised (\<open>_init_client\<close> logs the failure and leaves \<open>self.client\<close> at \<open>None\<close>,
  so \<open>create_tweet\<close> raises an \<open>AttributeError\<close>).
\<close>

definition unreachable :: "pystr \<Rightarrow> pystr \<Rightarrow> pystr option \<Rightarrow> exn + PostResult" where
  "unreachable t i l = Inl (Raised ''connection refused'')"

definition no_client :: "pystr \<Rightarrow> bool \<Rightarrow> exn + string option" where
  "no_client t m = Inl (Raised ''NoneType object has no attribute create_tweet'')"

definition example_registry :: "config \<Rightarrow> string \<Rightarrow> adapter option" where
  "example_registry c n =
     (if n = ''instagram'' then Some (InstagramPlatform unreachable)
      else if n = ''twitter'' then Some (TwitterPlatform c no_client (\<lambda>i. None))
      else None)"

text \<open>
  Collaborators that never raise, and the same with an image library that cannot
  read the download.
\<close>

definition quiet_env :: "config \<Rightarrow> env" where
  "quiet_env c =
     \<lparr>cfg = c, registry = example_registry c,
      process_for_all_platforms = (\<lambda>u. Inr (\<lambda>n. None)),
      slack_send_result = (\<lambda>q rs. None),
      telegram_send_message = (\<lambda>k rs. None),
      now = ''2024-05-01T09:02:00+00:00''\<rparr>"

definition broken_media_env :: "config \<Rightarrow> env" where
  "broken_media_env c =
     (quiet_env c)\<lparr>process_for_all_platforms := (\<lambda>u. Inl (Raised ''cannot identify image file''))\<rparr>"

text \<open>
  A poster with nothing in flight whose store holds one post, created under the
  configuration with the given image and approved by hand.
\<close>

definition approved_post :: "config \<Rightarrow> pystr option \<Rightarrow> poster" where
  "approved_post c img =
     \<lparr>db = write_post_status ''2024-05-01T09:01:00+00:00'' 1 ''approved''
             (Some ''telegram_user'') (Some ''manual'') None None
             (snd (create_post ''2024-05-01T09:00:00+00:00'' c (py ''Topic'') (py ''Summary'')
                     (Some []) (Some []) img (Some []) ''normal'' (Some ''webhook'') [] None
                     init_db)),
      posting_in_progress = {},
      effects = []\<rparr>"

text \<open>The statuses of the channel rows of a post, and the actions of its audit trail.\<close>

definition attempt_statuses :: "poster \<Rightarrow> int \<Rightarrow> (string \<times> string \<times> string option) list" where
  "attempt_statuses s post_id =
     map (\<lambda>r. (pp_platform r, pp_status r, pp_error_message r))
       (get_platform_statuses (db s) post_id)"

definition audit_actions :: "poster \<Rightarrow> int \<Rightarrow> string list" where
  "audit_actions s post_id = map al_action (get_audit_log (db s) post_id)"

text \<open>Twitter and instagram in a dry run: the twitter adapter reports success.\<close>

definition dry_run_both :: config where
  "dry_run_both =
     \<lparr>ENABLED_PLATFORMS = [''twitter'', ''instagram''], AUTO_APPROVE = True, DRY_RUN = True\<rparr>"

section \<open>The buttons of an approval request\<close>

text \<open>
  Python's \<open>str\<close> of an integer, and the \<open>callback_data\<close> that
  \<open>send_approval_request\<close> gives the buttons of its keyboard:
  \<open>f"approve:{post_id}"\<close>, \<open>f"reject:{post_id}"\<close> and \<open>f"info:{post_id}"\<close>.
\<close>

function digits_of :: "nat \<Rightarrow> string" where
  "digits_of n =
     (if n < 10 then [char_of (48 + n)]
      else digits_of (n div 10) @ [char_of (48 + n mod 10)])"
  by pat_completeness auto
termination
  by (relation "measure (\<lambda>n. n)") auto

definition str_int :: "int \<Rightarrow> string" where
  "str_int i = (if i < 0 then CHR ''-'' # digits_of (nat (- i)) else digits_of (nat i))"

definition button :: "string \<Rightarrow> int \<Rightarrow> string" where
  "button action post_id = action @ '':'' @ str_int post_id"

section \<open>Example states of the approval orchestrator\<close>

text \<open>
  A bot with no request outstanding, and the bot after the approval request for
  the pending post 1 went out as message 100 with auto-approval on.
\<close>

definition fresh_bot :: "database \<Rightarrow> bot" where
  "fresh_bot d =
     \<lparr>pending_approvals = (\<lambda>m. None), timers = (\<lambda>m. None), store = d, bot_effects = []\<rparr>"

definition armed_bot :: bot where
  "armed_bot = snd (send_approval_request example_config (Some 100) 1 (fresh_bot one_pending))"

text \<open>The same request for a bot that has already resolved it by the timer.\<close>

definition resolved_bot :: bot where
  "resolved_bot = handle_event ''2024-05-01T09:05:00+00:00'' (TimerExpires 100) armed_bot"

definition status_in :: "bot \<Rightarrow> int \<Rightarrow> string option" where
  "status_in b post_id = map_option status (get_post (store b) post_id)"

chapter \<open>Properties\<close>

section \<open>The item store\<close>

subsection \<open>Updating a row\<close>

lemma find_map_upd:
  "(\<And>x. k (g x) = k x) \<Longrightarrow>
   find (\<lambda>p. k p = i) (map (\<lambda>p. if k p = i then g p else p) xs)
     = map_option g (find (\<lambda>p. k p = i) xs)"
  by (induction xs) auto

lemma id_set_post_fields: "id' (set_post_fields t st ab at rr em p) = id' p"
  by (simp add: set_post_fields_def Let_def)

lemma status_set_post_fields: "status (set_post_fields t st ab at rr em p) = st"
  by (simp add: set_post_fields_def Let_def)

lemma completed_at_set_post_fields:
  "completed_at (set_post_fields t st ab at rr em p) =
     (if st = ''completed'' \<or> st = ''partial_failure'' then Some t else completed_at p)"
  by (simp add: set_post_fields_def Let_def)

lemma update_post_status_found:
  assumes "get_post d pid = Some p"
  shows "update_post_status t pid st ab at rr em d =
           Inr (d\<lparr>posts := map (\<lambda>q. if id' q = pid
                                     then set_post_fields t st ab at rr em q else q) (posts d),
                  audit_log := audit_log d @ [\<lparr>al_post_id = pid, al_action = st,
                      al_details = StatusChange ab at rr, al_timestamp = t\<rparr>]\<rparr>)"
  using assms by (simp add: update_post_status_def write_post_status_def)

lemma update_post_status_missing:
  "get_post d pid = None \<Longrightarrow> update_post_status t pid st ab at rr em d = Inl IntegrityError"
  by (simp add: update_post_status_def)

lemma get_post_updated:
  assumes "get_post d pid = Some p"
  shows "get_post (d\<lparr>posts := map (\<lambda>q. if id' q = pid
                                     then set_post_fields t st ab at rr em q else q) (posts d),
                  audit_log := al\<rparr>) pid = Some (set_post_fields t st ab at rr em p)"
  using assms by (simp add: get_post_def find_map_upd id_set_post_fields)

lemma one_pending_row: "map_option status (get_post one_pending 1) = Some ''pending''"
  by code_simp

lemma one_posting_row: "map_option status (post_after one_posting 1) = Some ''posting''"
  by code_simp

subsection \<open>No check of the transition\<close>

text \<open>
  Claim C1 says that the transition operation checks that the new status can be
  reached from the current one, so that the audit trail of an item is a path of the
  state machine. \<open>update_post_status\<close> never reads the current status. What holds:
  for a post that exists, whatever its status and whatever the status asked for, the
  call returns, the row carries the status asked for and the audit trail grows by
  exactly one entry recording it; for an id with no post the call raises and changes
  nothing.
\<close>

theorem update_post_status_no_validation:
  "(get_post d post_id = Some p \<longrightarrow>
      (\<exists>d'. update_post_status t post_id st ab at rr em d = Inr d' \<and>
            map_option status (get_post d' post_id) = Some st \<and>
            audit_log d' = audit_log d @ [\<lparr>al_post_id = post_id, al_action = st,
                      al_details = StatusChange ab at rr, al_timestamp = t\<rparr>])) \<and>
   (get_post d post_id = None \<longrightarrow>
      update_post_status t post_id st ab at rr em d = Inl IntegrityError)"
proof (intro conjI impI)
  assume found: "get_post d post_id = Some p"
  let ?d' = "d\<lparr>posts := map (\<lambda>q. if id' q = post_id
                                     then set_post_fields t st ab at rr em q else q) (posts d),
                  audit_log := audit_log d @ [\<lparr>al_post_id = post_id, al_action = st,
                      al_details = StatusChange ab at rr, al_timestamp = t\<rparr>]\<rparr>"
  have "update_post_status t post_id st ab at rr em d = Inr ?d'"
    by (rule update_post_status_found [OF found])
  moreover have "map_option status (get_post ?d' post_id) = Some st"
    by (simp add: get_post_updated [OF found] status_set_post_fields)
  moreover have "audit_log ?d' = audit_log d @ [\<lparr>al_post_id = post_id, al_action = st,
                      al_details = StatusChange ab at rr, al_timestamp = t\<rparr>]"
    by simp
  ultimately show "\<exists>d'. update_post_status t post_id st ab at rr em d = Inr d' \<and>
            map_option status (get_post d' post_id) = Some st \<and>
            audit_log d' = audit_log d @ [\<lparr>al_post_id = post_id, al_action = st,
                      al_details = StatusChange ab at rr, al_timestamp = t\<rparr>]"
    by blast
next
  assume "get_post d post_id = None"
  then show "update_post_status t post_id st ab at rr em d = Inl IntegrityError"
    by (rule update_post_status_missing)
qed

text \<open>The theorem at a pending post that is rejected, and at an id that has no post.\<close>

theorem update_post_status_no_validation_witness:
  "map_option status (get_post one_pending 1) = Some ''pending'' \<and>
   (\<exists>d'. update_post_status ''2024-05-01T09:05:00+00:00'' 1 ''rejected'' None None
            (Some ''Manually rejected via Telegram'') None one_pending = Inr d' \<and>
         map_option status (get_post d' 1) = Some ''rejected'') \<and>
   update_post_status ''2024-05-01T09:05:00+00:00'' 7 ''rejected'' None None None None one_pending
     = Inl IntegrityError"
proof -
  obtain p where p: "get_post one_pending 1 = Some p"
    using one_pending_row by (cases "get_post one_pending 1") auto
  have none: "get_post one_pending 7 = None"
    by code_simp
  from update_post_status_no_validation [of one_pending 1 p "''2024-05-01T09:05:00+00:00''"
      "''rejected''" None None "Some ''Manually rejected via Telegram''" None] p
  have a: "\<exists>d'. update_post_status ''2024-05-01T09:05:00+00:00'' 1 ''rejected'' None None
            (Some ''Manually rejected via Telegram'') None one_pending = Inr d' \<and>
         map_option status (get_post d' 1) = Some ''rejected''"
    by blast
  from update_post_status_no_validation [of one_pending 7 p "''2024-05-01T09:05:00+00:00''"
      "''rejected''" None None None None] none
  have b: "update_post_status ''2024-05-01T09:05:00+00:00'' 7 ''rejected'' None None None None
             one_pending = Inl IntegrityError"
    by blast
  show ?thesis using one_pending_row a b by blast
qed

text \<open>
  A pending post is moved straight to \<open>completed\<close>, as \<open>test_get_stats\<close> of
  \<open>tests/test_db.py\<close> does: the call is accepted, and the audit trail of the post
  reads created, completed, which is no path of the state machine.
\<close>

theorem pending_to_completed_counterexample:
  "map_option status (get_post one_pending 1) = Some ''pending'' \<and>
   \<not> spec_transition ''pending'' ''completed'' \<and>
   map_option status
     (post_after (update_post_status ''2024-05-01T09:05:00+00:00'' 1 ''completed''
                    None None None None one_pending) 1) = Some ''completed'' \<and>
   actions_after (update_post_status ''2024-05-01T09:05:00+00:00'' 1 ''completed''
                    None None None None one_pending) 1 = [''created'', ''completed'']"
  by code_simp

subsection \<open>The completion time\<close>

text \<open>
  Claim C8 says that \<open>completed_at\<close> is stamped whenever the transition moves an item
  into \<open>completed\<close>, \<open>partial_failure\<close> or \<open>failed\<close>. The guard of \<open>update_post_status\<close>
  names the first two only. What holds: for a post that exists, the call stamps
  \<open>completed_at\<close> with the time of the call when the new status is \<open>completed\<close> or
  \<open>partial_failure\<close>, and leaves it as it was for every other status.
\<close>

theorem completed_at_stamped:
  assumes "get_post d post_id = Some p"
  shows "\<exists>d' p'. update_post_status t post_id st ab at rr em d = Inr d' \<and>
           get_post d' post_id = Some p' \<and>
           completed_at p' = (if st = ''completed'' \<or> st = ''partial_failure''
                              then Some t else completed_at p)"
  using assms
  by (simp add: update_post_status_found get_post_updated completed_at_set_post_fields)

text \<open>The theorem at a post in \<open>posting\<close> that ends in \<open>partial_failure\<close>.\<close>

theorem completed_at_stamped_witness:
  "map_option status (post_after one_posting 1) = Some ''posting'' \<and>
   (\<exists>d' p'. and_then one_posting
        (update_post_status ''2024-05-01T09:02:00+00:00'' 1 ''partial_failure'' None None None None)
          = Inr d' \<and>
      get_post d' 1 = Some p' \<and>
      completed_at p' = Some ''2024-05-01T09:02:00+00:00'')"
proof -
  have "post_after one_posting 1 \<noteq> None"
    using one_posting_row by auto
  then obtain d p where d: "one_posting = Inr d" and p: "get_post d 1 = Some p"
    unfolding post_after_def by (auto split: sum.splits)
  from completed_at_stamped [OF p, of "''2024-05-01T09:02:00+00:00''" "''partial_failure''"
      None None None None]
  show ?thesis
    using one_posting_row by (simp add: d and_then_def)
qed

text \<open>
  A post in \<open>posting\<close> is moved to \<open>failed\<close>: the status is written and \<open>completed_at\<close>
  stays \<open>NULL\<close>.
\<close>

theorem failed_not_stamped_counterexample:
  "map_option status (post_after one_posting 1) = Some ''posting'' \<and>
   map_option status
     (post_after (and_then one_posting
        (update_post_status ''2024-05-01T09:02:00+00:00'' 1 ''failed'' None None None None)) 1)
     = Some ''failed'' \<and>
   map_option completed_at
     (post_after (and_then one_posting
        (update_post_status ''2024-05-01T09:02:00+00:00'' 1 ''failed'' None None None None)) 1)
     = Some None"
  by code_simp

subsection \<open>The posts that are ready\<close>

lemma ready_iff:
  "ready t p \<longleftrightarrow>
     (status p = ''approved'' \<or> status p = ''auto_approved'') \<and>
     (scheduled_for p = None \<or> (\<exists>s. scheduled_for p = Some s \<and> s \<le> t))"
  by (cases "scheduled_for p") (simp_all add: ready_def)

lemma count_get_pending_posts:
  "count (mset (get_pending_posts t d)) p = (if ready t p then count (mset (posts d)) p else 0)"
  by (simp add: get_pending_posts_def)

lemma sorted_get_pending_posts:
  "sorted (map (\<lambda>p. (priority_rank (priority p), created_at p)) (get_pending_posts t d))"
  by (simp add: get_pending_posts_def)

lemma rank_order:
  assumes "(priority_rank a, x) \<le> (priority_rank b, y)"
  shows "(b = ''high'' \<longrightarrow> a \<noteq> ''normal'' \<and> a \<noteq> ''low'') \<and>
         (b = ''normal'' \<longrightarrow> a \<noteq> ''low'') \<and>
         (a = b \<longrightarrow> x \<le> y)"
  using assms by (auto simp: priority_rank_def less_eq_prod_def split: if_splits)

text \<open>
  Claim C7: \<open>get_pending_posts\<close> at the time \<open>t\<close> returns exactly the posts whose
  status is \<open>approved\<close> or \<open>auto_approved\<close> and whose \<open>scheduled_for\<close> is null or at
  most \<open>t\<close>, each as often as the table holds it; in the result no normal or low
  post stands before a high one and no low post before a normal one, and posts of
  the same priority stand in ascending order of \<open>created_at\<close>; a post scheduled after
  \<open>t\<close> is not in the result. Timestamps are compared as SQLite compares them, as
  text.
\<close>

theorem get_pending_posts_ready_in_order:
  "(\<forall>p. count (mset (get_pending_posts t d)) p =
         (if (status p = ''approved'' \<or> status p = ''auto_approved'') \<and>
             (scheduled_for p = None \<or> (\<exists>s. scheduled_for p = Some s \<and> s \<le> t))
          then count (mset (posts d)) p else 0)) \<and>
   (\<forall>i j. i < j \<and> j < length (get_pending_posts t d) \<longrightarrow>
      (priority (get_pending_posts t d ! j) = ''high'' \<longrightarrow>
         priority (get_pending_posts t d ! i) \<noteq> ''normal'' \<and>
         priority (get_pending_posts t d ! i) \<noteq> ''low'') \<and>
      (priority (get_pending_posts t d ! j) = ''normal'' \<longrightarrow>
         priority (get_pending_posts t d ! i) \<noteq> ''low'') \<and>
      (priority (get_pending_posts t d ! i) = priority (get_pending_posts t d ! j) \<longrightarrow>
         created_at (get_pending_posts t d ! i) \<le> created_at (get_pending_posts t d ! j))) \<and>
   (\<forall>p s. scheduled_for p = Some s \<and> t < s \<longrightarrow> p \<notin> set (get_pending_posts t d))"
proof (intro conjI allI impI)
  fix p
  show "count (mset (get_pending_posts t d)) p =
         (if (status p = ''approved'' \<or> status p = ''auto_approved'') \<and>
             (scheduled_for p = None \<or> (\<exists>s. scheduled_for p = Some s \<and> s \<le> t))
          then count (mset (posts d)) p else 0)"
    using count_get_pending_posts [of t d p] ready_iff [of t p] by simp
next
  fix i j
  let ?ps = "get_pending_posts t d"
  assume ij: "i < j \<and> j < length ?ps"
  let ?k = "\<lambda>p. (priority_rank (priority p), created_at p)"
  have "map ?k ?ps ! i \<le> map ?k ?ps ! j"
    using sorted_get_pending_posts [of t d] ij
    by (intro sorted_nth_mono) simp_all
  then have le: "(priority_rank (priority (?ps ! i)), created_at (?ps ! i))
                 \<le> (priority_rank (priority (?ps ! j)), created_at (?ps ! j))"
    using ij by simp
  note r = rank_order [OF le]
  show "priority (?ps ! j) = ''high'' \<Longrightarrow> priority (?ps ! i) \<noteq> ''normal''"
    using r by blast
  show "priority (?ps ! j) = ''high'' \<Longrightarrow> priority (?ps ! i) \<noteq> ''low''"
    using r by blast
  show "priority (?ps ! j) = ''normal'' \<Longrightarrow> priority (?ps ! i) \<noteq> ''low''"
    using r by blast
  show "priority (?ps ! i) = priority (?ps ! j) \<Longrightarrow> created_at (?ps ! i) \<le> created_at (?ps ! j)"
    using r by blast
next
  fix p :: post and s
  assume a: "scheduled_for p = Some s \<and> t < s"
  then have "\<not> ready t p"
    by (auto simp: ready_def)
  then have "count (mset (get_pending_posts t d)) p = 0"
    by (simp add: count_get_pending_posts)
  then show "p \<notin> set (get_pending_posts t d)"
    by (simp add: count_eq_zero_iff)
qed

lemma four_approved_at_ten:
  "pending_ids ''2024-05-01T10:00:00+00:00'' four_approved = [2, 3, 1]"
  by code_simp

lemma four_approved_at_noon:
  "pending_ids ''2024-05-01T12:00:00+00:00'' four_approved = [2, 4, 3, 1]"
  by code_simp

lemma four_approved_priorities_at_noon:
  "pending_priorities ''2024-05-01T12:00:00+00:00'' four_approved
     = [''high'', ''high'', ''normal'', ''low'']"
  by code_simp

lemma four_approved_fourth:
  "map_option scheduled_for (post_after four_approved 4) = Some (Some ''2024-05-01T12:00:00+00:00'')"
  by code_simp

text \<open>
  The theorem at four approved posts: at ten the post scheduled for noon is left
  out and the others come back high, normal, low; at noon it comes back as well,
  after the older high-priority post.
\<close>

theorem get_pending_posts_ready_in_order_witness:
  "\<exists>d p. four_approved = Inr d \<and> get_post d 4 = Some p \<and>
     scheduled_for p = Some ''2024-05-01T12:00:00+00:00'' \<and>
     p \<notin> set (get_pending_posts ''2024-05-01T10:00:00+00:00'' d) \<and>
     map id' (get_pending_posts ''2024-05-01T10:00:00+00:00'' d) = [2, 3, 1] \<and>
     map id' (get_pending_posts ''2024-05-01T12:00:00+00:00'' d) = [2, 4, 3, 1] \<and>
     map priority (get_pending_posts ''2024-05-01T12:00:00+00:00'' d)
       = [''high'', ''high'', ''normal'', ''low''] \<and>
     created_at (get_pending_posts ''2024-05-01T12:00:00+00:00'' d ! 0)
       \<le> created_at (get_pending_posts ''2024-05-01T12:00:00+00:00'' d ! 1)"
proof -
  have "post_after four_approved 4 \<noteq> None"
    using four_approved_fourth by auto
  then obtain d p where d: "four_approved = Inr d" and p: "get_post d 4 = Some p"
    unfolding post_after_def by (auto split: sum.splits)
  have s: "scheduled_for p = Some ''2024-05-01T12:00:00+00:00''"
    using four_approved_fourth by (simp add: d p post_after_def)
  have early: "''2024-05-01T10:00:00+00:00'' < ''2024-05-01T12:00:00+00:00''"
    by simp
  let ?noon = "get_pending_posts ''2024-05-01T12:00:00+00:00'' d"
  have out: "p \<notin> set (get_pending_posts ''2024-05-01T10:00:00+00:00'' d)"
    using get_pending_posts_ready_in_order [of "''2024-05-01T10:00:00+00:00''" d] s early
    by blast
  have ten: "map id' (get_pending_posts ''2024-05-01T10:00:00+00:00'' d) = [2, 3, 1]"
    using four_approved_at_ten by (simp add: d pending_ids_def)
  have noon: "map id' ?noon = [2, 4, 3, 1]"
    using four_approved_at_noon by (simp add: d pending_ids_def)
  have prios: "map priority ?noon = [''high'', ''high'', ''normal'', ''low'']"
    using four_approved_priorities_at_noon by (simp add: d pending_priorities_def)
  have "length (map id' ?noon) = 4"
    by (simp add: noon)
  then have len: "length ?noon = 4"
    by simp
  have "map priority ?noon ! 0 = map priority ?noon ! 1"
    by (simp add: prios)
  then have same: "priority (?noon ! 0) = priority (?noon ! 1)"
    by (simp add: len)
  have "0 < (1::nat) \<and> 1 < length ?noon"
    by (simp add: len)
  then have order: "created_at (?noon ! 0) \<le> created_at (?noon ! 1)"
    using get_pending_posts_ready_in_order [of "''2024-05-01T12:00:00+00:00''" d] same
    by blast
  show ?thesis
    using d p s out ten noon prios order by (intro exI [of _ d] exI [of _ p]) simp
qed

section \<open>The text of a tweet\<close>

lemma length_py_dots: "length (py ''...'') = 3"
  by (simp add: py_def)

lemma length_slice_to: "0 \<le> k \<Longrightarrow> length (slice_to s k) \<le> nat k"
  by (simp add: slice_to_def)

lemma truncate_with_link:
  assumes "l \<noteq> []"
  shows "\<exists>body. truncate' tx (Some l) 280 = body @ [NL] @ l \<and> length body \<le> 256"
proof (cases "int (length tx) > 256")
  case True
  have len: "length (slice_to tx 253 @ py ''...'') \<le> 256"
    using length_slice_to [of 253 tx] by (simp add: length_py_dots)
  have eq: "truncate' tx (Some l) 280 = (slice_to tx 253 @ py ''...'') @ [NL] @ l"
    using True assms by (simp add: truncate'_def Let_def)
  show ?thesis
    using eq len by blast
next
  case False
  then have eq: "truncate' tx (Some l) 280 = tx @ [NL] @ l"
    using assms by (simp add: truncate'_def Let_def)
  show ?thesis
    using eq False by auto
qed

text \<open>
  Claim C9 says that for an item with a link the text for the twitter channel is at
  most 280 characters long and contains the link. The code budgets 23 characters for
  the link, as Twitter counts any URL, and appends the link as it is. What holds:
  the tweet is a body of at most 256 characters, a newline and the whole link; so
  the link is contained in it, its length is at most 257 plus the length of the
  link, and it is at most 280 when the link has at most 23 characters.
\<close>

theorem tweet_text_with_link:
  assumes "truthy (link p)"
  shows "(\<exists>body. tweet_text p = body @ [NL] @ the_str (link p) \<and> length body \<le> 256) \<and>
         sublist (the_str (link p)) (tweet_text p) \<and>
         length (tweet_text p) \<le> 257 + length (the_str (link p)) \<and>
         (length (the_str (link p)) \<le> 23 \<longrightarrow> length (tweet_text p) \<le> 280)"
proof -
  from assms obtain l where l: "link p = Some l" "l \<noteq> []"
    by (auto simp: truthy_def split: option.splits)
  from truncate_with_link [OF l(2), of "build_post_text p ''twitter''"]
  obtain body where b: "tweet_text p = body @ [NL] @ l" "length body \<le> 256"
    by (auto simp: tweet_text_def l)
  have s: "the_str (link p) = l"
    by (simp add: the_str_def l)
  have "sublist l (tweet_text p)"
    unfolding b(1) by (intro suffix_imp_sublist suffixI [of _ "body @ [NL]"]) simp
  moreover have "length (tweet_text p) \<le> 257 + length l"
    using b by simp
  ultimately show ?thesis
    using b s by auto
qed

text \<open>
  The theorem at a post whose link has 43 characters, and at the same post with a
  link of 19 characters, where the tweet stays within 280.
\<close>

lemma launch_post_link: "truthy (link launch_post)"
  by (simp add: launch_post_def truthy_def py_def)

lemma short_link_post_link: "truthy (link short_link_post)"
  by (simp add: short_link_post_def truthy_def py_def)

theorem tweet_text_with_link_witness:
  "truthy (link launch_post) \<and>
   sublist (py ''https://example.com/articles/2024/05/launch'') (tweet_text launch_post) \<and>
   length (tweet_text launch_post) \<le> 300 \<and>
   truthy (link short_link_post) \<and>
   sublist (py ''https://t.co/launch'') (tweet_text short_link_post) \<and>
   length (tweet_text short_link_post) \<le> 280"
proof -
  have l: "the_str (link launch_post) = py ''https://example.com/articles/2024/05/launch''"
    by (simp add: launch_post_def the_str_def)
  have n: "length (py ''https://example.com/articles/2024/05/launch'') = 43"
    by (simp add: py_def)
  have l': "the_str (link short_link_post) = py ''https://t.co/launch''"
    by (simp add: short_link_post_def the_str_def)
  have n': "length (py ''https://t.co/launch'') = 19"
    by (simp add: py_def)
  have a: "sublist (py ''https://example.com/articles/2024/05/launch'') (tweet_text launch_post) \<and>
           length (tweet_text launch_post) \<le> 300"
    using tweet_text_with_link [OF launch_post_link] by (simp add: l n)
  have b: "sublist (py ''https://t.co/launch'') (tweet_text short_link_post) \<and>
           length (tweet_text short_link_post) \<le> 280"
    using tweet_text_with_link [OF short_link_post_link] by (simp add: l' n')
  show ?thesis
    using launch_post_link short_link_post_link a b by simp
qed

text \<open>
  The same post: the text built for twitter has 253 characters, \<open>_truncate\<close> leaves
  it alone and appends a newline and the 43 characters of the link, 297 in all.
\<close>

theorem tweet_longer_than_280_counterexample:
  "truthy (link launch_post) \<and> length (tweet_text launch_post) = 297 \<and>
   \<not> length (tweet_text launch_post) \<le> 280"
  by code_simp

section \<open>The dispatch engine\<close>

subsection \<open>Writing a channel outcome\<close>

lemma update_platform_status_found:
  "get_post d pid = Some q \<Longrightarrow>
   update_platform_status t pid n st a b c d = Inr (write_platform_status t pid n st a b c d)"
  by (simp add: update_platform_status_def)

lemma posts_write_platform_status:
  "posts (write_platform_status t pid n st a b c d) = posts d"
  by (simp add: write_platform_status_def)

lemma get_post_write_platform_status:
  "get_post (write_platform_status t pid n st a b c d) k = get_post d k"
  by (simp add: get_post_def posts_write_platform_status)

lemma audit_log_write_platform_status:
  "audit_log (write_platform_status t pid n st a b c d) =
     audit_log d @ [\<lparr>al_post_id = pid, al_action = ''platform_'' @ st,
                     al_details = PlatformChange n a c, al_timestamp = t\<rparr>]"
  by (simp add: write_platform_status_def)

lemma key_set_platform_fields:
  "pp_post_id (set_platform_fields t st a b c r) = pp_post_id r"
  "pp_platform (set_platform_fields t st a b c r) = pp_platform r"
  by (simp_all add: set_platform_fields_def Let_def)

lemma status_set_platform_fields:
  "pp_status (set_platform_fields t st a b c r) = st"
  by (simp add: set_platform_fields_def Let_def)

lemma error_set_platform_fields:
  "truthy c \<Longrightarrow> pp_error_message (set_platform_fields t st a b c r) = c"
  by (simp add: set_platform_fields_def Let_def)

lemma rows_map_other:
  "m \<noteq> n \<Longrightarrow>
   filter (\<lambda>r. pp_post_id r = pid \<and> pp_platform r = m)
     (map (\<lambda>r. if pp_post_id r = pid \<and> pp_platform r = n
               then set_platform_fields t st a b c r else r) rs)
   = filter (\<lambda>r. pp_post_id r = pid \<and> pp_platform r = m) rs"
  by (induction rs) (auto simp: key_set_platform_fields)

lemma rows_map_same:
  "filter (\<lambda>r. pp_post_id r = pid \<and> pp_platform r = n)
     (map (\<lambda>r. if pp_post_id r = pid \<and> pp_platform r = n
               then set_platform_fields t st a b c r else r) rs)
   = map (set_platform_fields t st a b c)
       (filter (\<lambda>r. pp_post_id r = pid \<and> pp_platform r = n) rs)"
  by (induction rs) (auto simp: key_set_platform_fields)

lemma rows_write_other:
  assumes "m \<noteq> n"
  shows "filter (\<lambda>r. pp_post_id r = pid \<and> pp_platform r = m)
           (platform_posts (write_platform_status t pid n st a b c d))
         = filter (\<lambda>r. pp_post_id r = pid \<and> pp_platform r = m) (platform_posts d)"
  using assms by (simp add: write_platform_status_def rows_map_other)

lemma rows_write_same:
  "filter (\<lambda>r. pp_post_id r = pid \<and> pp_platform r = n)
           (platform_posts (write_platform_status t pid n st a b c d))
         = map (set_platform_fields t st a b c)
             (filter (\<lambda>r. pp_post_id r = pid \<and> pp_platform r = n) (platform_posts d))"
  by (simp add: write_platform_status_def rows_map_same)

subsection \<open>One platform\<close>

lemma post_to_platform_found:
  assumes "get_post (db s) pid = Some q"
  shows "post_to_platform E pid p pi n a s =
          (Inr (outcome_row p pi (n, a), success (adapter_result p pi (n, a))),
           s\<lparr>db := (if success (adapter_result p pi (n, a))
                     then write_platform_status (now E) pid n ''published''
                            (platform_post_id (adapter_result p pi (n, a)))
                            (platform_url (adapter_result p pi (n, a))) None
                     else write_platform_status (now E) pid n ''failed'' None None
                            (error_message' (adapter_result p pi (n, a))))
                    (write_platform_status (now E) pid n ''posting'' None None None (db s)),
              effects := effects s
                 @ [PlatformCall n (build_post_text p n) (image_path_for pi p n) (link p)]
                 @ (if success (adapter_result p pi (n, a)) then []
                    else [AlertPostFailed pid n (error_message' (adapter_result p pi (n, a)))])\<rparr>)"
  using assms
  by (simp add: post_to_platform_def Let_def update_platform_status_found
        get_post_write_platform_status adapter_result_def outcome_row_def)


lemma post_to_platform_missing:
  assumes "get_post (db s) pid = None"
  shows "post_to_platform E pid p pi n a s = (Inl IntegrityError, s)"
  using assms by (simp add: post_to_platform_def Let_def update_platform_status_def)

lemma post_to_platform_in_progress:
  "posting_in_progress (snd (post_to_platform E pid p pi n a s)) = posting_in_progress s"
  by (cases "get_post (db s) pid")
     (simp_all add: post_to_platform_missing post_to_platform_found)

lemma post_to_platform_get_post:
  "get_post (db (snd (post_to_platform E pid p pi n a s))) k = get_post (db s) k"
  by (cases "get_post (db s) pid")
     (simp_all add: post_to_platform_missing post_to_platform_found
        get_post_write_platform_status)

lemma platform_calls_append:
  "platform_calls (es @ fs) = platform_calls es @ platform_calls fs"
  by (induction es rule: platform_calls.induct) simp_all

lemma post_to_platform_calls:
  assumes "get_post (db s) pid = Some q"
  shows "platform_calls (effects (snd (post_to_platform E pid p pi n a s)))
           = platform_calls (effects s) @ [n]"
  using assms by (simp add: post_to_platform_found platform_calls_append)

lemma post_to_platform_rows_other:
  assumes "m \<noteq> n"
  shows "attempts_of (snd (post_to_platform E pid p pi n a s)) pid m = attempts_of s pid m"
  using assms
  by (cases "get_post (db s) pid")
     (simp_all add: post_to_platform_missing post_to_platform_found attempts_of_def
        rows_write_other)

lemma post_to_platform_rows:
  assumes "get_post (db s) pid = Some q"
    and "r \<in> set (attempts_of (snd (post_to_platform E pid p pi n a s)) pid n)"
  shows "pp_status r = rr_status (outcome_row p pi (n, a)) \<and>
         (truthy (rr_error_message (outcome_row p pi (n, a))) \<and>
          \<not> success (adapter_result p pi (n, a)) \<longrightarrow>
            pp_error_message r = rr_error_message (outcome_row p pi (n, a)))"
proof (cases "success (adapter_result p pi (n, a))")
  case True
  have "attempts_of (snd (post_to_platform E pid p pi n a s)) pid n =
          map (set_platform_fields (now E) ''published''
                 (platform_post_id (adapter_result p pi (n, a)))
                 (platform_url (adapter_result p pi (n, a))) None)
            (filter (\<lambda>r. pp_post_id r = pid \<and> pp_platform r = n)
               (platform_posts (write_platform_status (now E) pid n ''posting'' None None None (db s))))"
    using True by (simp add: post_to_platform_found [OF assms(1)] attempts_of_def rows_write_same)
  then obtain r0 where "r = set_platform_fields (now E) ''published''
                 (platform_post_id (adapter_result p pi (n, a)))
                 (platform_url (adapter_result p pi (n, a))) None r0"
    using assms(2) by auto
  then show ?thesis
    using True by (simp add: status_set_platform_fields outcome_row_def)
next
  case False
  have "attempts_of (snd (post_to_platform E pid p pi n a s)) pid n =
          map (set_platform_fields (now E) ''failed'' None None
                 (error_message' (adapter_result p pi (n, a))))
            (filter (\<lambda>r. pp_post_id r = pid \<and> pp_platform r = n)
               (platform_posts (write_platform_status (now E) pid n ''posting'' None None None (db s))))"
    using False by (simp add: post_to_platform_found [OF assms(1)] attempts_of_def rows_write_same)
  then obtain r0 where "r = set_platform_fields (now E) ''failed'' None None
                 (error_message' (adapter_result p pi (n, a))) r0"
    using assms(2) by auto
  then show ?thesis
    using False
    by (simp add: status_set_platform_fields error_set_platform_fields outcome_row_def)
qed

lemma post_to_platform_audit:
  assumes "get_post (db s) pid = Some q"
  shows "audit_log (db (snd (post_to_platform E pid p pi n a s))) =
           audit_log (db s) @
           [\<lparr>al_post_id = pid, al_action = ''platform_posting'',
              al_details = PlatformChange n None None, al_timestamp = now E\<rparr>,
            if success (adapter_result p pi (n, a))
            then \<lparr>al_post_id = pid, al_action = ''platform_published'',
                   al_details = PlatformChange n (platform_post_id (adapter_result p pi (n, a))) None,
                   al_timestamp = now E\<rparr>
            else \<lparr>al_post_id = pid, al_action = ''platform_failed'',
                   al_details = PlatformChange n None (error_message' (adapter_result p pi (n, a))),
                   al_timestamp = now E\<rparr>]"
  using assms
  by (simp add: post_to_platform_found audit_log_write_platform_status)

subsection \<open>The loop\<close>

lemma post_to_platforms_in_progress:
  "posting_in_progress (snd (post_to_platforms E pid p pi pls rs sc tc s)) = posting_in_progress s"
proof (induction pls arbitrary: rs sc tc s)
  case Nil
  show ?case by simp
next
  case (Cons na pls)
  obtain n a where na: "na = (n, a)" by (cases na)
  show ?case
    using Cons post_to_platform_in_progress [of E pid p pi n a s]
    by (cases "post_to_platform E pid p pi n a s")
       (auto simp: na split: sum.splits prod.splits)
qed

lemma post_to_platforms_found:
  assumes "get_post (db s) pid = Some q"
  shows "\<exists>s'. post_to_platforms E pid p pi pls rs sc tc s =
           (Inr (rs @ map (outcome_row p pi) pls, sc + successes p pi pls, tc + length pls), s') \<and>
         get_post (db s') pid = Some q \<and>
         platform_calls (effects s') = platform_calls (effects s) @ map fst pls \<and>
         (\<forall>m. m \<notin> fst ` set pls \<longrightarrow> attempts_of s' pid m = attempts_of s pid m) \<and>
         set (audit_log (db s)) \<subseteq> set (audit_log (db s'))"
  using assms
proof (induction pls arbitrary: rs sc tc s)
  case Nil
  show ?case by (simp add: Nil successes_def)
next
  case (Cons na pls)
  obtain n a where na: "na = (n, a)" by (cases na)
  obtain s1 where step: "post_to_platform E pid p pi n a s =
                (Inr (outcome_row p pi (n, a), success (adapter_result p pi (n, a))), s1)"
    using post_to_platform_found [OF Cons.prems, of E p pi n a] by blast
  have s1: "snd (post_to_platform E pid p pi n a s) = s1"
    by (simp add: step)
  have found1: "get_post (db s1) pid = Some q"
    using Cons.prems post_to_platform_get_post [of E pid p pi n a s pid] by (simp add: s1)
  from Cons.IH [OF found1, of "rs @ [outcome_row p pi (n, a)]"
      "if success (adapter_result p pi (n, a)) then sc + 1 else sc" "tc + 1"]
  obtain s' where s':
    "post_to_platforms E pid p pi pls (rs @ [outcome_row p pi (n, a)])
        (if success (adapter_result p pi (n, a)) then sc + 1 else sc) (tc + 1) s1 =
       (Inr ((rs @ [outcome_row p pi (n, a)]) @ map (outcome_row p pi) pls,
             (if success (adapter_result p pi (n, a)) then sc + 1 else sc) + successes p pi pls,
             tc + 1 + length pls), s')"
    "get_post (db s') pid = Some q"
    "platform_calls (effects s') = platform_calls (effects s1) @ map fst pls"
    "\<forall>m. m \<notin> fst ` set pls \<longrightarrow> attempts_of s' pid m = attempts_of s1 pid m"
    "set (audit_log (db s1)) \<subseteq> set (audit_log (db s'))"
    by blast
  have eq: "post_to_platforms E pid p pi (na # pls) rs sc tc s =
          (Inr (rs @ map (outcome_row p pi) (na # pls), sc + successes p pi (na # pls),
                tc + length (na # pls)), s')"
    using s'(1)
    by (cases "success (adapter_result p pi (n, a))") (simp_all add: na step successes_def)
  have calls: "platform_calls (effects s') = platform_calls (effects s) @ map fst (na # pls)"
    using s'(3) post_to_platform_calls [OF Cons.prems, of E p pi n a] by (simp add: na s1)
  have rows: "\<forall>m. m \<notin> fst ` set (na # pls) \<longrightarrow> attempts_of s' pid m = attempts_of s pid m"
    using s'(4) post_to_platform_rows_other [of _ n E pid p pi a s] by (auto simp: na s1)
  have audit: "set (audit_log (db s)) \<subseteq> set (audit_log (db s'))"
    using s'(5) post_to_platform_audit [OF Cons.prems, of E p pi n a] by (auto simp: s1)
  show ?case
    using eq s'(2) calls rows audit by blast
qed


lemma post_to_platforms_rows:
  assumes "get_post (db s) pid = Some q"
    and "distinct (map fst pls)"
    and "(n, a) \<in> set pls"
    and "r \<in> set (attempts_of (snd (post_to_platforms E pid p pi pls rs sc tc s)) pid n)"
  shows "pp_status r = rr_status (outcome_row p pi (n, a)) \<and>
         (truthy (rr_error_message (outcome_row p pi (n, a))) \<and>
          \<not> success (adapter_result p pi (n, a)) \<longrightarrow>
            pp_error_message r = rr_error_message (outcome_row p pi (n, a)))"
  using assms
proof (induction pls arbitrary: rs sc tc s)
  case Nil
  then show ?case by simp
next
  case (Cons mb pls)
  obtain m b where mb: "mb = (m, b)" by (cases mb)
  obtain s1 where step: "post_to_platform E pid p pi m b s =
                (Inr (outcome_row p pi (m, b), success (adapter_result p pi (m, b))), s1)"
    using post_to_platform_found [OF Cons.prems(1), of E p pi m b] by blast
  have s1: "snd (post_to_platform E pid p pi m b s) = s1"
    by (simp add: step)
  have found1: "get_post (db s1) pid = Some q"
    using Cons.prems(1) post_to_platform_get_post [of E pid p pi m b s pid] by (simp add: s1)
  let ?rs = "rs @ [outcome_row p pi (m, b)]"
  let ?sc = "if success (adapter_result p pi (m, b)) then sc + 1 else sc"
  have unfold: "post_to_platforms E pid p pi (mb # pls) rs sc tc s =
                  post_to_platforms E pid p pi pls ?rs ?sc (tc + 1) s1"
    by (simp add: mb step)
  have r: "r \<in> set (attempts_of (snd (post_to_platforms E pid p pi pls ?rs ?sc (tc + 1) s1)) pid n)"
    using Cons.prems(4) by (simp add: unfold)
  show ?case
  proof (cases "(n, a) = (m, b)")
    case True
    then have "n \<notin> fst ` set pls"
      using Cons.prems(2) by (auto simp: mb)
    moreover obtain s' where "post_to_platforms E pid p pi pls ?rs ?sc (tc + 1) s1 =
         (Inr (?rs @ map (outcome_row p pi) pls, ?sc + successes p pi pls, tc + 1 + length pls), s')"
       and "\<forall>k. k \<notin> fst ` set pls \<longrightarrow> attempts_of s' pid k = attempts_of s1 pid k"
      using post_to_platforms_found [OF found1, of E p pi pls ?rs ?sc "tc + 1"] by blast
    ultimately have "r \<in> set (attempts_of s1 pid n)"
      using r by simp
    then show ?thesis
      using post_to_platform_rows [OF Cons.prems(1), of r E p pi m b] True by (simp add: s1)
  next
    case False
    then have "(n, a) \<in> set pls"
      using Cons.prems(3) by (auto simp: mb)
    moreover have "distinct (map fst pls)"
      using Cons.prems(2) by simp
    ultimately show ?thesis
      using Cons.IH [OF found1 _ _ r] by blast
  qed
qed

lemma post_to_platforms_audit_entry:
  assumes "get_post (db s) pid = Some q"
    and "(n, a) \<in> set pls"
    and "\<not> success (adapter_result p pi (n, a))"
  shows "\<lparr>al_post_id = pid, al_action = ''platform_failed'',
           al_details = PlatformChange n None (error_message' (adapter_result p pi (n, a))),
           al_timestamp = now E\<rparr>
         \<in> set (audit_log (db (snd (post_to_platforms E pid p pi pls rs sc tc s))))"
  using assms
proof (induction pls arbitrary: rs sc tc s)
  case Nil
  then show ?case by simp
next
  case (Cons mb pls)
  obtain m b where mb: "mb = (m, b)" by (cases mb)
  obtain s1 where step: "post_to_platform E pid p pi m b s =
                (Inr (outcome_row p pi (m, b), success (adapter_result p pi (m, b))), s1)"
    using post_to_platform_found [OF Cons.prems(1), of E p pi m b] by blast
  have s1: "snd (post_to_platform E pid p pi m b s) = s1"
    by (simp add: step)
  have found1: "get_post (db s1) pid = Some q"
    using Cons.prems(1) post_to_platform_get_post [of E pid p pi m b s pid] by (simp add: s1)
  let ?rs = "rs @ [outcome_row p pi (m, b)]"
  let ?sc = "if success (adapter_result p pi (m, b)) then sc + 1 else sc"
  have unfold: "post_to_platforms E pid p pi (mb # pls) rs sc tc s =
                  post_to_platforms E pid p pi pls ?rs ?sc (tc + 1) s1"
    by (simp add: mb step)
  show ?case
  proof (cases "(n, a) = (m, b)")
    case True
    have "\<lparr>al_post_id = pid, al_action = ''platform_failed'',
           al_details = PlatformChange n None (error_message' (adapter_result p pi (n, a))),
           al_timestamp = now E\<rparr> \<in> set (audit_log (db s1))"
      using post_to_platform_audit [OF Cons.prems(1), of E p pi m b] True Cons.prems(3)
      by (simp add: s1)
    moreover obtain s' where "post_to_platforms E pid p pi pls ?rs ?sc (tc + 1) s1 =
         (Inr (?rs @ map (outcome_row p pi) pls, ?sc + successes p pi pls, tc + 1 + length pls), s')"
       and "set (audit_log (db s1)) \<subseteq> set (audit_log (db s'))"
      using post_to_platforms_found [OF found1, of E p pi pls ?rs ?sc "tc + 1"] by blast
    ultimately show ?thesis
      by (auto simp: unfold)
  next
    case False
    then have "(n, a) \<in> set pls"
      using Cons.prems(2) by (auto simp: mb)
    then show ?thesis
      using Cons.IH [OF found1 _ Cons.prems(3)] by (simp add: unfold)
  qed
qed


subsection \<open>The other stages\<close>

lemma write_post_status_fields:
  "platform_posts (write_post_status t pid st ab at rr em d) = platform_posts d"
  "audit_log (write_post_status t pid st ab at rr em d) =
     audit_log d @ [\<lparr>al_post_id = pid, al_action = st,
                     al_details = StatusChange ab at rr, al_timestamp = t\<rparr>]"
  by (simp_all add: write_post_status_def)

lemma get_post_write_post_status:
  assumes "get_post d pid = Some p"
  shows "get_post (write_post_status t pid st ab at rr em d) pid
           = Some (set_post_fields t st ab at rr em p)"
  using assms by (simp add: write_post_status_def get_post_updated)

lemma update_post_status_written:
  "get_post d pid = Some p \<Longrightarrow>
   update_post_status t pid st ab at rr em d = Inr (write_post_status t pid st ab at rr em d)"
  by (simp add: update_post_status_def)

lemma process_media_state:
  "snd (process_media E p s) =
     s\<lparr>effects := effects s @ (if truthy (image_url p)
                                then [MediaProcessing (the_str (image_url p))] else [])\<rparr>"
  by (simp add: process_media_def)

lemma process_media_result:
  "fst (process_media E p s) = fst (process_media E p s')"
  by (simp add: process_media_def)

lemma update_overall_found:
  assumes "get_post (db s) pid = Some q"
  shows "update_overall E pid k n s =
           (Inr (),
            s\<lparr>db := write_post_status (now E) pid (overall_status k n) None None None None (db s),
               effects := effects s @ (if overall_status k n = ''failed''
                                       then [AlertAllPlatformsFailed pid] else [])\<rparr>)"
  using assms by (simp add: update_overall_def update_post_status_written)

lemma update_overall_in_progress:
  "posting_in_progress (snd (update_overall E pid k n s)) = posting_in_progress s"
  by (simp add: update_overall_def split: sum.splits)

lemma send_summaries_ok:
  assumes "get_post (db s) pid = Some q"
    and "slack_send_result E q rs = None"
    and "telegram_send_message E pid rs = None"
  shows "send_summaries E pid rs s =
           (Inr (), s\<lparr>effects := effects s @ [SlackResult q rs, TelegramSummary pid rs]\<rparr>)"
  using assms by (simp add: send_summaries_def Let_def)

lemma send_summaries_in_progress:
  "posting_in_progress (snd (send_summaries E pid rs s)) = posting_in_progress s"
  by (simp add: send_summaries_def Let_def split: option.splits)

lemma process_media_in_progressD:
  "process_media E p s = (r, s1) \<Longrightarrow> posting_in_progress s1 = posting_in_progress s"
  using process_media_state [of E p s] by simp

lemma post_to_platforms_in_progressD:
  "post_to_platforms E pid p pi pls rs sc tc s = (r, s1) \<Longrightarrow>
   posting_in_progress s1 = posting_in_progress s"
  using post_to_platforms_in_progress [of E pid p pi pls rs sc tc s] by simp

lemma update_overall_in_progressD:
  "update_overall E pid k n s = (r, s1) \<Longrightarrow> posting_in_progress s1 = posting_in_progress s"
  using update_overall_in_progress [of E pid k n s] by simp

lemma do_post_try_in_progress:
  "posting_in_progress (snd (do_post_try E pid s)) = posting_in_progress s"
proof (cases "get_post (db s) pid")
  case None
  then show ?thesis by (simp add: do_post_try_def)
next
  case (Some p)
  let ?d = "write_post_status (now E) pid ''posting'' None None None None (db s)"
  obtain r1 s1 where pm: "process_media E p (s\<lparr>db := ?d\<rparr>) = (r1, s1)"
    by (cases "process_media E p (s\<lparr>db := ?d\<rparr>)")
  have s1: "posting_in_progress s1 = posting_in_progress s"
    using process_media_in_progressD [OF pm] by simp
  show ?thesis
  proof (cases r1)
    case (Inl e)
    then show ?thesis
      using Some s1 pm by (simp add: do_post_try_def update_post_status_written)
  next
    case (Inr pi)
    obtain r2 s2 where lp:
      "post_to_platforms E pid p pi (get_all_enabled (cfg E) (registry E)) [] 0 0 s1 = (r2, s2)"
      by (cases "post_to_platforms E pid p pi (get_all_enabled (cfg E) (registry E)) [] 0 0 s1")
    have s2: "posting_in_progress s2 = posting_in_progress s"
      using post_to_platforms_in_progressD [OF lp] s1 by simp
    show ?thesis
    proof (cases r2)
      case (Inl e)
      then show ?thesis
        using Some s2 pm lp \<open>r1 = Inr pi\<close>
        by (simp add: do_post_try_def update_post_status_written)
    next
      case (Inr res)
      obtain rs k n where res: "res = (rs, k, n)" by (cases res)
      obtain r3 s3 where uo: "update_overall E pid k n s2 = (r3, s3)"
        by (cases "update_overall E pid k n s2")
      have s3: "posting_in_progress s3 = posting_in_progress s"
        using update_overall_in_progressD [OF uo] s2 by simp
      show ?thesis
        using Some s3 pm lp uo res \<open>r1 = Inr pi\<close> \<open>r2 = Inr res\<close>
        by (cases r3)
           (simp_all add: do_post_try_def update_post_status_written send_summaries_in_progress)
    qed
  qed
qed

lemma do_post_except_in_progress:
  "posting_in_progress (snd (do_post_except E pid e s)) = posting_in_progress s"
  by (simp add: do_post_except_def split: sum.splits)

lemma do_post_in_progress:
  "posting_in_progress (snd (do_post E pid s)) =
     (if pid \<in> posting_in_progress s then posting_in_progress s
      else posting_in_progress s - {pid})"
  by (simp add: do_post_def Let_def do_post_try_in_progress do_post_except_in_progress
        split: sum.splits)


subsection \<open>A run that no collaborator interrupts\<close>

lemma distinct_get_all_enabled: "distinct (map fst (get_all_enabled c reg))"
proof -
  have "distinct (map fst acc) \<Longrightarrow>
        distinct (map fst (fold (\<lambda>n result. case get_platform c reg n of
                        None \<Rightarrow> result
                      | Some a \<Rightarrow> AList.update n a result) ns acc))" for ns acc
    by (induction ns arbitrary: acc) (auto simp: distinct_update split: option.splits)
  then show ?thesis
    by (simp add: get_all_enabled_def)
qed

lemma platform_calls_none:
  "platform_calls [MediaProcessing u] = []"
  "platform_calls [AlertAllPlatformsFailed k] = []"
  "platform_calls [SlackResult q rs, TelegramSummary k rs] = []"
  by simp_all

lemma do_post_run:
  assumes found: "get_post (db s) pid = Some p"
    and free: "pid \<notin> posting_in_progress s"
    and media: "fst (process_media E p s) = Inr pi"
    and slack: "\<And>q rs. slack_send_result E q rs = None"
    and tele: "\<And>rs. telegram_send_message E pid rs = None"
    and pls: "pls = get_all_enabled (cfg E) (registry E)"
  shows "\<exists>s'. do_post E pid s = (Inr (), s') \<and>
           posting_in_progress s' = posting_in_progress s \<and>
           status_of s' pid = Some (overall_status (successes p pi pls) (length pls)) \<and>
           platform_calls (effects s') = platform_calls (effects s) @ map fst pls \<and>
           (\<forall>n a r. (n, a) \<in> set pls \<and> r \<in> set (attempts_of s' pid n) \<longrightarrow>
                pp_status r = rr_status (outcome_row p pi (n, a)) \<and>
                (truthy (rr_error_message (outcome_row p pi (n, a))) \<and>
                 \<not> success (adapter_result p pi (n, a)) \<longrightarrow>
                   pp_error_message r = rr_error_message (outcome_row p pi (n, a)))) \<and>
           (\<forall>n a. (n, a) \<in> set pls \<and> \<not> success (adapter_result p pi (n, a)) \<longrightarrow>
                \<lparr>al_post_id = pid, al_action = ''platform_failed'',
                  al_details = PlatformChange n None (error_message' (adapter_result p pi (n, a))),
                  al_timestamp = now E\<rparr> \<in> set (audit_log (db s')))"
proof -
  let ?s0 = "s\<lparr>posting_in_progress := insert pid (posting_in_progress s)\<rparr>"
  let ?d = "write_post_status (now E) pid ''posting'' None None None None (db s)"
  let ?p1 = "set_post_fields (now E) ''posting'' None None None None p"
  let ?sA = "?s0\<lparr>db := ?d\<rparr>"
  have p1: "get_post ?d pid = Some ?p1"
    by (rule get_post_write_post_status [OF found])
  obtain s1 where pm: "process_media E p ?sA = (Inr pi, s1)"
    using media process_media_result [of E p ?sA s]
    by (cases "process_media E p ?sA") simp
  have s1: "s1 = ?sA\<lparr>effects := effects ?sA @ (if truthy (image_url p)
                                then [MediaProcessing (the_str (image_url p))] else [])\<rparr>"
    using process_media_state [of E p ?sA] by (simp add: pm)
  have found1: "get_post (db s1) pid = Some ?p1"
    using p1 by (simp add: s1)
  obtain s2 where lp: "post_to_platforms E pid p pi pls [] 0 0 s1 =
           (Inr ([] @ map (outcome_row p pi) pls, 0 + successes p pi pls, 0 + length pls), s2)"
      and found2: "get_post (db s2) pid = Some ?p1"
      and calls2: "platform_calls (effects s2) = platform_calls (effects s1) @ map fst pls"
      and audit2: "set (audit_log (db s1)) \<subseteq> set (audit_log (db s2))"
    using post_to_platforms_found [OF found1, of E p pi pls "[]" 0 0] by blast
  have s2: "snd (post_to_platforms E pid p pi pls [] 0 0 s1) = s2"
    by (simp add: lp)
  have inprog2: "posting_in_progress s2 = insert pid (posting_in_progress s)"
    using post_to_platforms_in_progressD [OF lp] by (simp add: s1)
  let ?k = "successes p pi pls" and ?n = "length pls"
  let ?s3 = "s2\<lparr>db := write_post_status (now E) pid (overall_status ?k ?n) None None None None (db s2),
               effects := effects s2 @ (if overall_status ?k ?n = ''failed''
                                       then [AlertAllPlatformsFailed pid] else [])\<rparr>"
  have uo: "update_overall E pid ?k ?n s2 = (Inr (), ?s3)"
    by (rule update_overall_found [OF found2])
  let ?p3 = "set_post_fields (now E) (overall_status ?k ?n) None None None None ?p1"
  have found3: "get_post (db ?s3) pid = Some ?p3"
    using get_post_write_post_status [OF found2] by simp
  let ?s4 = "?s3\<lparr>effects := effects ?s3 @ [SlackResult ?p3 (map (outcome_row p pi) pls),
                                         TelegramSummary pid (map (outcome_row p pi) pls)]\<rparr>"
  have ss: "send_summaries E pid (map (outcome_row p pi) pls) ?s3 = (Inr (), ?s4)"
    by (rule send_summaries_ok [OF found3 slack tele])
  have tried: "do_post_try E pid ?s0 = (Inr (), ?s4)"
    using found pm lp uo ss
    by (simp add: do_post_try_def update_post_status_written pls [symmetric])
  let ?s' = "?s4\<lparr>posting_in_progress := posting_in_progress ?s4 - {pid}\<rparr>"
  have run: "do_post E pid s = (Inr (), ?s')"
    using free tried by (simp add: do_post_def Let_def)
  have a: "posting_in_progress ?s' = posting_in_progress s"
    using free inprog2 by simp
  have b: "status_of ?s' pid = Some (overall_status ?k ?n)"
    using found3 by (simp add: status_of_def status_set_post_fields)
  have c: "platform_calls (effects ?s') = platform_calls (effects s) @ map fst pls"
    using calls2 by (simp add: s1 platform_calls_append)
  have rows_eq: "attempts_of ?s' pid n = attempts_of s2 pid n" for n
    by (simp add: attempts_of_def write_post_status_fields)
  have d: "\<forall>n a r. (n, a) \<in> set pls \<and> r \<in> set (attempts_of ?s' pid n) \<longrightarrow>
                pp_status r = rr_status (outcome_row p pi (n, a)) \<and>
                (truthy (rr_error_message (outcome_row p pi (n, a))) \<and>
                 \<not> success (adapter_result p pi (n, a)) \<longrightarrow>
                   pp_error_message r = rr_error_message (outcome_row p pi (n, a)))"
  proof (intro allI impI)
    fix n a r
    assume h: "(n, a) \<in> set pls \<and> r \<in> set (attempts_of ?s' pid n)"
    then have "r \<in> set (attempts_of (snd (post_to_platforms E pid p pi pls [] 0 0 s1)) pid n)"
      by (simp only: rows_eq s2)
    moreover have "distinct (map fst pls)"
      by (simp add: pls distinct_get_all_enabled)
    ultimately show "pp_status r = rr_status (outcome_row p pi (n, a)) \<and>
                (truthy (rr_error_message (outcome_row p pi (n, a))) \<and>
                 \<not> success (adapter_result p pi (n, a)) \<longrightarrow>
                   pp_error_message r = rr_error_message (outcome_row p pi (n, a)))"
      using post_to_platforms_rows [OF found1 _ _ , of pls n a r E p pi "[]" 0 0] h by blast
  qed
  have e: "\<forall>n a. (n, a) \<in> set pls \<and> \<not> success (adapter_result p pi (n, a)) \<longrightarrow>
                \<lparr>al_post_id = pid, al_action = ''platform_failed'',
                  al_details = PlatformChange n None (error_message' (adapter_result p pi (n, a))),
                  al_timestamp = now E\<rparr> \<in> set (audit_log (db ?s'))"
  proof (intro allI impI)
    fix n a
    assume h: "(n, a) \<in> set pls \<and> \<not> success (adapter_result p pi (n, a))"
    have "\<lparr>al_post_id = pid, al_action = ''platform_failed'',
                  al_details = PlatformChange n None (error_message' (adapter_result p pi (n, a))),
                  al_timestamp = now E\<rparr> \<in> set (audit_log (db s2))"
      using post_to_platforms_audit_entry [OF found1, of n a pls p pi E "[]" 0 0] h
      by (simp add: s2)
    then show "\<lparr>al_post_id = pid, al_action = ''platform_failed'',
                  al_details = PlatformChange n None (error_message' (adapter_result p pi (n, a))),
                  al_timestamp = now E\<rparr> \<in> set (audit_log (db ?s'))"
      by (simp add: write_post_status_fields)
  qed
  show ?thesis
    using run a b c d e by blast
qed

subsection \<open>Channels that cannot post without an image\<close>

lemma no_image_media:
  "\<not> truthy (image_url p) \<Longrightarrow> fst (process_media E p s) = Inr (\<lambda>n. None)"
  by (simp add: process_media_def)

lemma no_image_result:
  "\<not> truthy (image_url p) \<Longrightarrow>
   adapter_result p (\<lambda>n. None) (n, a) = BasePlatform_post a (build_post_text p n) None (link p)"
  by (simp add: adapter_result_def image_path_for_def)

lemma map_of_get_all_enabled:
  "map_of (get_all_enabled c reg) n = get_platform c reg n"
proof -
  have "map_of (fold (\<lambda>n result. case get_platform c reg n of
                        None \<Rightarrow> result
                      | Some a \<Rightarrow> AList.update n a result) ns acc) n =
        (if n \<in> set ns \<and> get_platform c reg n \<noteq> None then get_platform c reg n
         else map_of acc n)" for ns acc
    by (induction ns arbitrary: acc) (auto simp: update_conv' split: option.splits)
  then show ?thesis
    by (simp add: get_all_enabled_def get_platform_def)
qed

lemma get_all_enabled_member:
  assumes "n \<in> set (ENABLED_PLATFORMS c)" and "reg n = Some a"
  shows "(n, a) \<in> set (get_all_enabled c reg)"
proof -
  have "map_of (get_all_enabled c reg) n = Some a"
    using assms by (simp add: map_of_get_all_enabled get_platform_def)
  then show ?thesis
    by (rule map_of_SomeD)
qed

lemma instagram_text_only:
  "BasePlatform_post (InstagramPlatform graph_api) t None l =
     \<lparr>success = False, platform = ''instagram'', platform_post_id = None,
      platform_url = None,
      error_message' = Some ''Instagram requires an image for posting''\<rparr>"
  by (simp add: BasePlatform_post_def post_try_def InstagramPlatform_def)

lemma overall_status_some_failed:
  "k < n \<Longrightarrow> overall_status k n = (if 0 < k then ''partial_failure'' else ''failed'')"
  by (simp add: overall_status_def)

lemma successes_less:
  assumes "na \<in> set pls" and "\<not> success (adapter_result p pi na)"
  shows "successes p pi pls < length pls"
  unfolding successes_def using assms
  by (meson length_filter_less)

text \<open>
  Claim C2 says that an enabled channel that requires media, for an item without an
  image, is recorded as \<open>skipped\<close> and left out of the aggregate, so that an item
  whose channels all require media ends \<open>completed\<close>. Instagram is the channel that
  requires media. The docstring of \<open>InstagramPlatform.post_text\<close> announces a skipped
  result and the schema of \<open>platform_posts\<close> lists \<open>skipped\<close> among the statuses, but
  the method returns an ordinary failed \<open>PostResult\<close> and \<open>_do_post\<close> treats it as
  one. What the code does, for an item in the store that supplies no image and is
  not in flight, with instagram enabled, when the two summaries do not raise: the
  rows of instagram end \<open>failed\<close> with the message of the adapter, the audit trail
  holds a \<open>platform_failed\<close> entry for instagram, and instagram counts in the
  denominator, so that the item ends \<open>partial_failure\<close> or \<open>failed\<close> and never
  \<open>completed\<close>; it ends \<open>failed\<close> when instagram is the only enabled channel.
\<close>

theorem instagram_without_image_counted_failed:
  assumes "get_post (db s) post_id = Some p"
    and "post_id \<notin> posting_in_progress s"
    and "\<not> truthy (image_url p)"
    and "''instagram'' \<in> set (ENABLED_PLATFORMS (cfg E))"
    and "registry E ''instagram'' = Some (InstagramPlatform graph_api)"
    and "\<forall>q rs. slack_send_result E q rs = None"
    and "\<forall>rs. telegram_send_message E post_id rs = None"
  shows "\<exists>s'. do_post E post_id s = (Inr (), s') \<and>
           (\<forall>r \<in> set (attempts_of s' post_id ''instagram'').
               pp_status r = ''failed'' \<and>
               pp_error_message r = Some ''Instagram requires an image for posting'') \<and>
           \<lparr>al_post_id = post_id, al_action = ''platform_failed'',
             al_details = PlatformChange ''instagram'' None
                            (Some ''Instagram requires an image for posting''),
             al_timestamp = now E\<rparr> \<in> set (audit_log (db s')) \<and>
           (status_of s' post_id = Some ''partial_failure'' \<or>
            status_of s' post_id = Some ''failed'') \<and>
           (ENABLED_PLATFORMS (cfg E) = [''instagram''] \<longrightarrow>
              status_of s' post_id = Some ''failed'')"
proof -
  let ?pls = "get_all_enabled (cfg E) (registry E)"
  let ?pi = "\<lambda>n. None :: pystr option option"
  let ?a = "InstagramPlatform graph_api"
  let ?msg = "''Instagram requires an image for posting''"
  have member: "(''instagram'', ?a) \<in> set ?pls"
    by (rule get_all_enabled_member [where c = "cfg E" and reg = "registry E", OF assms(4) assms(5)])
  have res: "adapter_result p ?pi (''instagram'', ?a) =
     \<lparr>success = False, platform = ''instagram'', platform_post_id = None,
      platform_url = None, error_message' = Some ?msg\<rparr>"
    using no_image_result [OF assms(3), of "''instagram''" ?a]
    by (simp add: instagram_text_only)
  have failure: "\<not> success (adapter_result p ?pi (''instagram'', ?a))"
    by (simp add: res)
  from do_post_run [OF assms(1) assms(2) no_image_media [OF assms(3)], of E ?pls]
    assms(6) assms(7)
  obtain s' where run: "do_post E post_id s = (Inr (), s')"
    and st: "status_of s' post_id = Some (overall_status (successes p ?pi ?pls) (length ?pls))"
    and rows: "\<forall>n a r. (n, a) \<in> set ?pls \<and> r \<in> set (attempts_of s' post_id n) \<longrightarrow>
                pp_status r = rr_status (outcome_row p ?pi (n, a)) \<and>
                (truthy (rr_error_message (outcome_row p ?pi (n, a))) \<and>
                 \<not> success (adapter_result p ?pi (n, a)) \<longrightarrow>
                   pp_error_message r = rr_error_message (outcome_row p ?pi (n, a)))"
    and audit: "\<forall>n a. (n, a) \<in> set ?pls \<and> \<not> success (adapter_result p ?pi (n, a)) \<longrightarrow>
                \<lparr>al_post_id = post_id, al_action = ''platform_failed'',
                  al_details = PlatformChange n None (error_message' (adapter_result p ?pi (n, a))),
                  al_timestamp = now E\<rparr> \<in> set (audit_log (db s'))"
    by blast
  have row: "outcome_row p ?pi (''instagram'', ?a) =
     \<lparr>rr_platform = ''instagram'', rr_status = ''failed'', rr_platform_url = None,
      rr_error_message = Some ?msg\<rparr>"
    by (simp add: outcome_row_def res)
  have a: "\<forall>r \<in> set (attempts_of s' post_id ''instagram'').
               pp_status r = ''failed'' \<and> pp_error_message r = Some ?msg"
  proof
    fix r
    assume "r \<in> set (attempts_of s' post_id ''instagram'')"
    with rows member failure show "pp_status r = ''failed'' \<and> pp_error_message r = Some ?msg"
      by (simp add: row truthy_def)
  qed
  have b: "\<lparr>al_post_id = post_id, al_action = ''platform_failed'',
             al_details = PlatformChange ''instagram'' None (Some ?msg),
             al_timestamp = now E\<rparr> \<in> set (audit_log (db s'))"
    using audit member failure res by fastforce
  have less: "successes p ?pi ?pls < length ?pls"
    by (rule successes_less [OF member failure])
  have c: "status_of s' post_id = Some ''partial_failure'' \<or>
           status_of s' post_id = Some ''failed''"
    using st less by (simp add: overall_status_some_failed)
  have d: "ENABLED_PLATFORMS (cfg E) = [''instagram''] \<longrightarrow> status_of s' post_id = Some ''failed''"
  proof
    assume only: "ENABLED_PLATFORMS (cfg E) = [''instagram'']"
    have "?pls = [(''instagram'', ?a)]"
      by (simp add: get_all_enabled_def get_platform_def only assms(5))
    then have "length ?pls = 1"
      by simp
    with less have "successes p ?pi ?pls = 0"
      by simp
    with st less show "status_of s' post_id = Some ''failed''"
      by (simp add: overall_status_some_failed)
  qed
  show ?thesis
    using run a b c d by blast
qed


text \<open>
  The theorem at a post without an image, with instagram as the one enabled channel:
  the row of the channel ends \<open>failed\<close>, not \<open>skipped\<close>, the item ends \<open>failed\<close>, not
  \<open>completed\<close>, and both failure alerts are sent.
\<close>

lemma instagram_only_post:
  "map_option image_url (get_post (db (approved_post instagram_only (Some []))) 1) = Some (Some [])"
  by code_simp

lemma instagram_only_run:
  "fst (do_post (quiet_env instagram_only) 1 (approved_post instagram_only (Some []))) = Inr ()"
  "attempt_statuses (snd (do_post (quiet_env instagram_only) 1
                       (approved_post instagram_only (Some [])))) 1
     = [(''instagram'', ''failed'', Some ''Instagram requires an image for posting'')]"
  "filter (\<lambda>e. case e of AlertPostFailed k n m \<Rightarrow> True | AlertAllPlatformsFailed k \<Rightarrow> True
                 | _ \<Rightarrow> False)
     (effects (snd (do_post (quiet_env instagram_only) 1
                       (approved_post instagram_only (Some [])))))
     = [AlertPostFailed 1 ''instagram'' (Some ''Instagram requires an image for posting''),
        AlertAllPlatformsFailed 1]"
  by code_simp+

theorem instagram_without_image_counted_failed_witness:
  "ENABLED_PLATFORMS instagram_only = [''instagram''] \<and>
   map_option image_url (get_post (db (approved_post instagram_only (Some []))) 1)
     = Some (Some []) \<and>
   fst (do_post (quiet_env instagram_only) 1 (approved_post instagram_only (Some []))) = Inr () \<and>
   attempt_statuses (snd (do_post (quiet_env instagram_only) 1
                       (approved_post instagram_only (Some [])))) 1
     = [(''instagram'', ''failed'', Some ''Instagram requires an image for posting'')] \<and>
   status_of (snd (do_post (quiet_env instagram_only) 1
                       (approved_post instagram_only (Some [])))) 1 = Some ''failed'' \<and>
   filter (\<lambda>e. case e of AlertPostFailed k n m \<Rightarrow> True | AlertAllPlatformsFailed k \<Rightarrow> True
                 | _ \<Rightarrow> False)
     (effects (snd (do_post (quiet_env instagram_only) 1
                       (approved_post instagram_only (Some [])))))
     = [AlertPostFailed 1 ''instagram'' (Some ''Instagram requires an image for posting''),
        AlertAllPlatformsFailed 1]"
proof -
  let ?s = "approved_post instagram_only (Some [])"
  let ?E = "quiet_env instagram_only"
  have only: "ENABLED_PLATFORMS (cfg ?E) = [''instagram'']"
    by (simp add: quiet_env_def instagram_only_def)
  have enabled: "''instagram'' \<in> set (ENABLED_PLATFORMS (cfg ?E))"
    by (simp add: only)
  have reg: "registry ?E ''instagram'' = Some (InstagramPlatform unreachable)"
    by (simp add: quiet_env_def example_registry_def)
  have free: "1 \<notin> posting_in_progress ?s"
    by (simp add: approved_post_def)
  obtain p where p: "get_post (db ?s) 1 = Some p" and img: "image_url p = Some []"
    using instagram_only_post by (cases "get_post (db ?s) 1") auto
  have noimg: "\<not> truthy (image_url p)"
    by (simp add: img truthy_def)
  have quiet: "\<forall>q rs. slack_send_result ?E q rs = None" "\<forall>rs. telegram_send_message ?E 1 rs = None"
    by (simp_all add: quiet_env_def)
  from instagram_without_image_counted_failed [OF p free noimg enabled reg quiet] only
  obtain s' where "do_post ?E 1 ?s = (Inr (), s')" "status_of s' 1 = Some ''failed''"
    by blast
  then have "status_of (snd (do_post ?E 1 ?s)) 1 = Some ''failed''"
    by simp
  moreover have "ENABLED_PLATFORMS instagram_only = [''instagram'']"
    by (simp add: instagram_only_def)
  ultimately show ?thesis
    using instagram_only_post instagram_only_run by simp
qed

subsection \<open>The guard\<close>

text \<open>
  Claim C3: a call of \<open>_do_post\<close> for an id that is in the in-flight set returns
  without an error and leaves the whole state as it was (no write to the store, no
  call of a channel, no other effect); a call for an id that is not in the set
  leaves, whatever way it ends (the early return for an unknown post, the normal
  end, the exception handler, an exception out of the handler), the id out of the
  set and the rest of the set as it was.
\<close>

theorem do_post_guard:
  "(post_id \<in> posting_in_progress s \<longrightarrow> do_post E post_id s = (Inr (), s)) \<and>
   (post_id \<notin> posting_in_progress s \<longrightarrow>
      post_id \<notin> posting_in_progress (snd (do_post E post_id s)) \<and>
      posting_in_progress (snd (do_post E post_id s)) = posting_in_progress s)"
  by (auto simp: do_post_in_progress) (simp add: do_post_def)


text \<open>
  The theorem at a post that is in flight, and at a run whose media step raises: the
  handler marks the post \<open>failed\<close>, sends the alert, and the id is released.
\<close>

theorem do_post_guard_witness:
  "do_post (quiet_env dry_run_both) 1
     ((approved_post dry_run_both (Some []))\<lparr>posting_in_progress := {1}\<rparr>)
     = (Inr (), (approved_post dry_run_both (Some []))\<lparr>posting_in_progress := {1}\<rparr>) \<and>
   posting_in_progress
     (snd (do_post (broken_media_env dry_run_both) 1
             (approved_post dry_run_both (Some (py ''https://example.com/a.png''))))) = {} \<and>
   status_of
     (snd (do_post (broken_media_env dry_run_both) 1
             (approved_post dry_run_both (Some (py ''https://example.com/a.png''))))) 1
     = Some ''failed'' \<and>
   effects
     (snd (do_post (broken_media_env dry_run_both) 1
             (approved_post dry_run_both (Some (py ''https://example.com/a.png'')))))
     = [MediaProcessing (py ''https://example.com/a.png''),
        AlertCrashed 1 ''cannot identify image file'']"
proof -
  let ?busy = "(approved_post dry_run_both (Some []))\<lparr>posting_in_progress := {1}\<rparr>"
  let ?s = "approved_post dry_run_both (Some (py ''https://example.com/a.png''))"
  have "1 \<in> posting_in_progress ?busy"
    by simp
  then have a: "do_post (quiet_env dry_run_both) 1 ?busy = (Inr (), ?busy)"
    using do_post_guard [of 1 ?busy "quiet_env dry_run_both"] by blast
  have "1 \<notin> posting_in_progress ?s"
    by (simp add: approved_post_def)
  then have "posting_in_progress (snd (do_post (broken_media_env dry_run_both) 1 ?s))
               = posting_in_progress ?s"
    using do_post_guard [of 1 ?s "broken_media_env dry_run_both"] by blast
  then have b: "posting_in_progress (snd (do_post (broken_media_env dry_run_both) 1 ?s)) = {}"
    by (simp add: approved_post_def)
  have c: "status_of (snd (do_post (broken_media_env dry_run_both) 1 ?s)) 1 = Some ''failed''"
    by code_simp
  have d: "effects (snd (do_post (broken_media_env dry_run_both) 1 ?s))
     = [MediaProcessing (py ''https://example.com/a.png''),
        AlertCrashed 1 ''cannot identify image file'']"
    by code_simp
  show ?thesis
    using a b c d by simp
qed

subsection \<open>An adapter that raises\<close>

lemma adapter_result_raised:
  assumes "post_try a (build_post_text p n) (image_path_for pi p n) (link p) = Inl e"
  shows "adapter_result p pi (n, a) =
           \<lparr>success = False, platform = name a, platform_post_id = None,
            platform_url = None, error_message' = Some (str_exn e)\<rparr>"
  using assms by (simp add: adapter_result_def BasePlatform_post_def)

text \<open>
  Claim C6: when the method of an enabled channel's adapter raises for the item
  being dispatched, \<open>BasePlatform.post\<close> catches the exception and the loop goes on:
  it ends normally with one result per enabled channel, every enabled channel was
  called, in order; the result of the channel is a failure whose error message is
  the text of the exception, the rows of the channel carry \<open>failed\<close> (and the text,
  unless it is empty: an empty message is not written to the row), and the audit
  trail holds a \<open>platform_failed\<close> entry with the text.
\<close>

theorem adapter_exception_is_channel_failure:
  assumes "get_post (db s) post_id = Some q"
    and "(n, a) \<in> set (get_all_enabled (cfg E) (registry E))"
    and "post_try a (build_post_text p n) (image_path_for pi p n) (link p) = Inl e"
  shows "\<exists>rs k t s'.
      post_to_platforms E post_id p pi (get_all_enabled (cfg E) (registry E)) [] 0 0 s
        = (Inr (rs, k, t), s') \<and>
      map rr_platform rs = map fst (get_all_enabled (cfg E) (registry E)) \<and>
      platform_calls (effects s') =
        platform_calls (effects s) @ map fst (get_all_enabled (cfg E) (registry E)) \<and>
      \<lparr>rr_platform = n, rr_status = ''failed'', rr_platform_url = None,
        rr_error_message = Some (str_exn e)\<rparr> \<in> set rs \<and>
      (\<forall>r \<in> set (attempts_of s' post_id n).
          pp_status r = ''failed'' \<and>
          (str_exn e \<noteq> [] \<longrightarrow> pp_error_message r = Some (str_exn e))) \<and>
      \<lparr>al_post_id = post_id, al_action = ''platform_failed'',
        al_details = PlatformChange n None (Some (str_exn e)),
        al_timestamp = now E\<rparr> \<in> set (audit_log (db s'))"
proof -
  let ?pls = "get_all_enabled (cfg E) (registry E)"
  have res: "adapter_result p pi (n, a) =
           \<lparr>success = False, platform = name a, platform_post_id = None,
            platform_url = None, error_message' = Some (str_exn e)\<rparr>"
    by (rule adapter_result_raised [OF assms(3)])
  have row: "outcome_row p pi (n, a) =
           \<lparr>rr_platform = n, rr_status = ''failed'', rr_platform_url = None,
            rr_error_message = Some (str_exn e)\<rparr>"
    by (simp add: outcome_row_def res)
  obtain s' where s': "post_to_platforms E post_id p pi ?pls [] 0 0 s =
           (Inr ([] @ map (outcome_row p pi) ?pls, 0 + successes p pi ?pls, 0 + length ?pls), s')"
      and calls: "platform_calls (effects s') = platform_calls (effects s) @ map fst ?pls"
    using post_to_platforms_found [OF assms(1), of E p pi ?pls "[]" 0 0] by blast
  have snd_eq: "snd (post_to_platforms E post_id p pi ?pls [] 0 0 s) = s'"
    by (simp add: s')
  have names: "map rr_platform (map (outcome_row p pi) ?pls) = map fst ?pls"
    by (simp add: outcome_row_def comp_def)
  have member: "\<lparr>rr_platform = n, rr_status = ''failed'', rr_platform_url = None,
        rr_error_message = Some (str_exn e)\<rparr> \<in> set (map (outcome_row p pi) ?pls)"
    using assms(2) row by force
  have rows: "\<forall>r \<in> set (attempts_of s' post_id n).
          pp_status r = ''failed'' \<and>
          (str_exn e \<noteq> [] \<longrightarrow> pp_error_message r = Some (str_exn e))"
  proof
    fix r
    assume "r \<in> set (attempts_of s' post_id n)"
    then have "r \<in> set (attempts_of (snd (post_to_platforms E post_id p pi ?pls [] 0 0 s)) post_id n)"
      by (simp only: snd_eq)
    from post_to_platforms_rows [OF assms(1) distinct_get_all_enabled assms(2) this]
    show "pp_status r = ''failed'' \<and>
          (str_exn e \<noteq> [] \<longrightarrow> pp_error_message r = Some (str_exn e))"
      by (simp add: row res truthy_def)
  qed
  have "\<not> success (adapter_result p pi (n, a))"
    by (simp add: res)
  from post_to_platforms_audit_entry [OF assms(1) assms(2) this, of E "[]" 0 0]
  have audit: "\<lparr>al_post_id = post_id, al_action = ''platform_failed'',
        al_details = PlatformChange n None (Some (str_exn e)),
        al_timestamp = now E\<rparr> \<in> set (audit_log (db s'))"
    by (simp add: snd_eq res)
  show ?thesis
    using s' calls names member rows audit by auto
qed


text \<open>
  The theorem at twitter and instagram, where the twitter client raises an
  \<open>AttributeError\<close>: twitter is recorded as failed and instagram is still called.
\<close>

lemma twitter_and_instagram_enabled:
  "get_all_enabled (cfg (quiet_env twitter_and_instagram)) (registry (quiet_env twitter_and_instagram))
     = [(''twitter'', TwitterPlatform twitter_and_instagram no_client (\<lambda>i. None)),
        (''instagram'', InstagramPlatform unreachable)]"
  by (simp add: get_all_enabled_def get_platform_def quiet_env_def twitter_and_instagram_def
        example_registry_def)

lemma approved_post_without_image:
  "map_option image_url (get_post (db (approved_post twitter_and_instagram (Some []))) 1)
     = Some (Some [])"
  by code_simp

theorem adapter_exception_is_channel_failure_witness:
  "\<exists>p rs k t s'.
     get_post (db (approved_post twitter_and_instagram (Some []))) 1 = Some p \<and>
     post_to_platforms (quiet_env twitter_and_instagram) 1 p (\<lambda>n. None)
        (get_all_enabled (cfg (quiet_env twitter_and_instagram))
           (registry (quiet_env twitter_and_instagram)))
        [] 0 0 (approved_post twitter_and_instagram (Some []))
       = (Inr (rs, k, t), s') \<and>
     \<lparr>rr_platform = ''twitter'', rr_status = ''failed'', rr_platform_url = None,
       rr_error_message = Some ''NoneType object has no attribute create_tweet''\<rparr> \<in> set rs \<and>
     platform_calls (effects s') = [''twitter'', ''instagram'']"
proof -
  let ?E = "quiet_env twitter_and_instagram"
  let ?s = "approved_post twitter_and_instagram (Some [])"
  let ?a = "TwitterPlatform twitter_and_instagram no_client (\<lambda>i. None)"
  obtain p where p: "get_post (db ?s) 1 = Some p" and img: "image_url p = Some []"
    using approved_post_without_image by (cases "get_post (db ?s) 1") auto
  have enabled: "(''twitter'', ?a) \<in> set (get_all_enabled (cfg ?E) (registry ?E))"
    by (simp add: twitter_and_instagram_enabled)
  have raised: "post_try ?a (build_post_text p ''twitter'')
                  (image_path_for (\<lambda>n. None) p ''twitter'') (link p)
                = Inl (Raised ''NoneType object has no attribute create_tweet'')"
    by (simp add: post_try_def image_path_for_def img truthy_def TwitterPlatform_def
          twitter_and_instagram_def no_client_def tweet_result_def Let_def)
  have calls0: "platform_calls (effects ?s) = []"
    by (simp add: approved_post_def)
  from adapter_exception_is_channel_failure [OF p enabled raised]
  obtain rs k t s' where
    "post_to_platforms ?E 1 p (\<lambda>n. None) (get_all_enabled (cfg ?E) (registry ?E)) [] 0 0 ?s
       = (Inr (rs, k, t), s')"
    "platform_calls (effects s') =
       platform_calls (effects ?s) @ map fst (get_all_enabled (cfg ?E) (registry ?E))"
    "\<lparr>rr_platform = ''twitter'', rr_status = ''failed'', rr_platform_url = None,
       rr_error_message = Some (str_exn (Raised ''NoneType object has no attribute create_tweet''))\<rparr>
     \<in> set rs"
    by blast
  then show ?thesis
    using p by (simp add: calls0 twitter_and_instagram_enabled)
qed

subsection \<open>No platform enabled\<close>

lemma get_all_enabled_empty:
  "ENABLED_PLATFORMS c = [] \<Longrightarrow> get_all_enabled c reg = []"
  by (simp add: get_all_enabled_def)

lemma update_overall_quiet:
  "platform_posts (db (snd (update_overall E pid k n s))) = platform_posts (db s) \<and>
   platform_calls (effects (snd (update_overall E pid k n s))) = platform_calls (effects s)"
  by (cases "get_post (db s) pid")
     (simp_all add: update_overall_def update_post_status_def write_post_status_fields
        platform_calls_append)

lemma send_summaries_quiet:
  "platform_posts (db (snd (send_summaries E pid rs s))) = platform_posts (db s) \<and>
   platform_calls (effects (snd (send_summaries E pid rs s))) = platform_calls (effects s)"
  by (simp add: send_summaries_def Let_def platform_calls_append split: option.splits)

lemma do_post_except_quiet:
  "platform_posts (db (snd (do_post_except E pid e s))) = platform_posts (db s) \<and>
   platform_calls (effects (snd (do_post_except E pid e s))) = platform_calls (effects s)"
  by (cases "get_post (db s) pid")
     (simp_all add: do_post_except_def update_post_status_def write_post_status_fields
        platform_calls_append)

lemma do_post_try_quiet:
  assumes "get_all_enabled (cfg E) (registry E) = []"
  shows "platform_posts (db (snd (do_post_try E pid s))) = platform_posts (db s) \<and>
         platform_calls (effects (snd (do_post_try E pid s))) = platform_calls (effects s)"
proof (cases "get_post (db s) pid")
  case None
  then show ?thesis by (simp add: do_post_try_def)
next
  case (Some p)
  let ?d = "write_post_status (now E) pid ''posting'' None None None None (db s)"
  obtain r1 s1 where pm: "process_media E p (s\<lparr>db := ?d\<rparr>) = (r1, s1)"
    by (cases "process_media E p (s\<lparr>db := ?d\<rparr>)")
  have s1: "platform_posts (db s1) = platform_posts (db s) \<and>
            platform_calls (effects s1) = platform_calls (effects s)"
    using process_media_state [of E p "s\<lparr>db := ?d\<rparr>"]
    by (simp add: pm write_post_status_fields platform_calls_append)
  show ?thesis
  proof (cases r1)
    case (Inl e)
    then show ?thesis
      using Some s1 pm by (simp add: do_post_try_def update_post_status_written)
  next
    case (Inr pi)
    obtain r3 s3 where uo: "update_overall E pid 0 0 s1 = (r3, s3)"
      by (cases "update_overall E pid 0 0 s1")
    have s3: "platform_posts (db s3) = platform_posts (db s) \<and>
              platform_calls (effects s3) = platform_calls (effects s)"
      using update_overall_quiet [of E pid 0 0 s1] s1 by (simp add: uo)
    show ?thesis
      using Some s3 pm uo Inr assms send_summaries_quiet [of E pid "[]" s3]
      by (cases r3) (simp_all add: do_post_try_def update_post_status_written)
  qed
qed

lemma do_post_quiet:
  assumes "get_all_enabled (cfg E) (registry E) = []"
  shows "platform_posts (db (snd (do_post E pid s))) = platform_posts (db s) \<and>
         platform_calls (effects (snd (do_post E pid s))) = platform_calls (effects s)"
proof (cases "pid \<in> posting_in_progress s")
  case True
  then show ?thesis by (simp add: do_post_def)
next
  case False
  let ?s0 = "s\<lparr>posting_in_progress := insert pid (posting_in_progress s)\<rparr>"
  obtain r1 s1 where tr: "do_post_try E pid ?s0 = (r1, s1)"
    by (cases "do_post_try E pid ?s0")
  have s1: "platform_posts (db s1) = platform_posts (db s) \<and>
            platform_calls (effects s1) = platform_calls (effects s)"
    using do_post_try_quiet [OF assms, of pid ?s0] by (simp add: tr)
  show ?thesis
    using False tr s1 do_post_except_quiet [of E pid _ s1]
    by (cases r1) (simp_all add: do_post_def Let_def)
qed

text \<open>
  Claim C10: with no platform enabled, a call of \<open>_do_post\<close> calls no channel and
  leaves every channel row as it was, whatever way it ends; and for a post in the
  store that is not in flight, when neither the media step nor the summaries raise,
  it returns normally and the post ends \<open>completed\<close>.
\<close>

theorem dispatch_with_no_platform:
  assumes "ENABLED_PLATFORMS (cfg E) = []"
  shows "platform_calls (effects (snd (do_post E post_id s))) = platform_calls (effects s) \<and>
         platform_posts (db (snd (do_post E post_id s))) = platform_posts (db s) \<and>
         (get_post (db s) post_id = Some p \<and> post_id \<notin> posting_in_progress s \<and>
          (\<exists>pi. fst (process_media E p s) = Inr pi) \<and>
          (\<forall>q rs. slack_send_result E q rs = None) \<and>
          (\<forall>rs. telegram_send_message E post_id rs = None) \<longrightarrow>
            fst (do_post E post_id s) = Inr () \<and>
            status_of (snd (do_post E post_id s)) post_id = Some ''completed'')"
proof -
  have none: "get_all_enabled (cfg E) (registry E) = []"
    by (rule get_all_enabled_empty [OF assms])
  have "fst (do_post E post_id s) = Inr () \<and>
        status_of (snd (do_post E post_id s)) post_id = Some ''completed''"
    if h: "get_post (db s) post_id = Some p \<and> post_id \<notin> posting_in_progress s \<and>
          (\<exists>pi. fst (process_media E p s) = Inr pi) \<and>
          (\<forall>q rs. slack_send_result E q rs = None) \<and>
          (\<forall>rs. telegram_send_message E post_id rs = None)"
  proof -
    from h obtain pi where pi: "fst (process_media E p s) = Inr pi"
      by blast
    from do_post_run [of s post_id p E pi "[]"] h pi none
    obtain s' where "do_post E post_id s = (Inr (), s')"
      "status_of s' post_id = Some (overall_status (successes p pi []) (length ([] :: (string \<times> adapter) list)))"
      by auto
    then show ?thesis
      by (simp add: overall_status_def successes_def)
  qed
  then show ?thesis
    using do_post_quiet [OF none, of post_id s] by blast
qed

text \<open>
  The theorem at an approved post and an empty configuration: the audit trail of the
  post grows by \<open>posting\<close> and \<open>completed\<close> and by no channel entry.
\<close>

lemma no_platforms_row:
  "map_option status (get_post (db (approved_post no_platforms (Some []))) 1) = Some ''approved''"
  by code_simp

theorem dispatch_with_no_platform_witness:
  "ENABLED_PLATFORMS (cfg (quiet_env no_platforms)) = [] \<and>
   1 \<notin> posting_in_progress (approved_post no_platforms (Some [])) \<and>
   fst (do_post (quiet_env no_platforms) 1 (approved_post no_platforms (Some []))) = Inr () \<and>
   status_of (snd (do_post (quiet_env no_platforms) 1 (approved_post no_platforms (Some [])))) 1
     = Some ''completed'' \<and>
   platform_calls (effects (snd (do_post (quiet_env no_platforms) 1
                                  (approved_post no_platforms (Some []))))) = [] \<and>
   platform_posts (db (snd (do_post (quiet_env no_platforms) 1
                              (approved_post no_platforms (Some []))))) = [] \<and>
   audit_actions (snd (do_post (quiet_env no_platforms) 1
                              (approved_post no_platforms (Some [])))) 1
     = [''created'', ''approved'', ''posting'', ''completed'']"
proof -
  let ?E = "quiet_env no_platforms"
  let ?s = "approved_post no_platforms (Some [])"
  have en: "ENABLED_PLATFORMS (cfg ?E) = []"
    by (simp add: quiet_env_def no_platforms_def)
  have free: "1 \<notin> posting_in_progress ?s"
    by (simp add: approved_post_def)
  obtain p where p: "get_post (db ?s) 1 = Some p"
    using no_platforms_row by (cases "get_post (db ?s) 1") auto
  have media: "\<exists>pi. fst (process_media ?E p ?s) = Inr pi"
    by (simp add: process_media_def quiet_env_def)
  have quiet: "\<forall>q rs. slack_send_result ?E q rs = None" "\<forall>rs. telegram_send_message ?E 1 rs = None"
    by (simp_all add: quiet_env_def)
  have s0: "platform_calls (effects ?s) = []" "platform_posts (db ?s) = []"
    by (simp_all add: approved_post_def write_post_status_fields create_post_def Let_def
          no_platforms_def init_db_def)
  have audit: "audit_actions (snd (do_post ?E 1 ?s)) 1
     = [''created'', ''approved'', ''posting'', ''completed'']"
    by code_simp
  from dispatch_with_no_platform [OF en, of 1 ?s p] p free media quiet
  have "fst (do_post ?E 1 ?s) = Inr () \<and>
        status_of (snd (do_post ?E 1 ?s)) 1 = Some ''completed'' \<and>
        platform_calls (effects (snd (do_post ?E 1 ?s))) = platform_calls (effects ?s) \<and>
        platform_posts (db (snd (do_post ?E 1 ?s))) = platform_posts (db ?s)"
    by blast
  then show ?thesis
    using en free audit by (simp add: s0)
qed

section \<open>The approval orchestrator\<close>

subsection \<open>Reading back the data of a button\<close>

text \<open>The equation of \<open>digits_of\<close> is unfolded by hand, one step at a time.\<close>

declare digits_of.simps [simp del]

lemma of_char_digit: "(d::nat) < 10 \<Longrightarrow> (of_char (char_of (48 + d)) :: nat) = 48 + d"
  by (simp add: of_char_of)

lemma is_digit_digit: "(d::nat) < 10 \<Longrightarrow> is_digit (char_of (48 + d))"
  by (simp add: is_digit_def of_char_digit)

lemma digits_of_digits: "c \<in> set (digits_of n) \<Longrightarrow> is_digit c"
proof (induction n rule: digits_of.induct)
  case (1 n)
  show ?case
  proof (cases "n < 10")
    case True
    then show ?thesis
      using "1.prems" by (subst (asm) digits_of.simps) (simp add: is_digit_digit)
  next
    case False
    then show ?thesis
      using "1.prems" "1.IH" is_digit_digit [of "n mod 10"]
      by (subst (asm) digits_of.simps) auto
  qed
qed

lemma digits_of_not_empty: "digits_of n \<noteq> []"
  by (subst digits_of.simps) simp

lemma digits_append:
  "(\<And>c. c \<in> set ds \<Longrightarrow> is_digit c) \<Longrightarrow>
   digits (ds @ cs) acc = digits cs (foldl (\<lambda>a c. 10 * a + (of_char c - 48)) acc ds)"
  by (induction ds arbitrary: acc) simp_all

lemma foldl_digits_of:
  "foldl (\<lambda>a c. 10 * a + (of_char c - 48)) 0 (digits_of n) = n"
proof (induction n rule: digits_of.induct)
  case (1 n)
  show ?case
  proof (cases "n < 10")
    case True
    then show ?thesis
      by (subst digits_of.simps) (simp add: of_char_digit)
  next
    case False
    then show ?thesis
      using "1.IH" by (subst digits_of.simps) (simp add: of_char_digit)
  qed
qed

lemma digits_digits_of: "digits (digits_of n) 0 = Some n"
  using digits_append [of "digits_of n" "[]" 0] digits_of_digits [of _ n]
  by (simp add: foldl_digits_of)

lemma unsigned_digits_of: "unsigned (digits_of n) = Some n"
proof (cases "digits_of n")
  case Nil
  then show ?thesis using digits_of_not_empty by simp
next
  case (Cons c cs)
  then have "is_digit c"
    using digits_of_digits [of c n] by simp
  then show ?thesis
    using digits_digits_of [of n] by (simp add: unsigned_def Cons)
qed

lemma digit_not_space: "is_digit c \<Longrightarrow> \<not> is_space c"
  by (auto simp: is_digit_def is_space_def)

lemma dropWhile_id: "xs \<noteq> [] \<Longrightarrow> \<not> P (hd xs) \<Longrightarrow> dropWhile P xs = xs"
  by (cases xs) simp_all

lemma strip_id:
  assumes "s \<noteq> []" and "\<not> is_space (hd s)" and "\<not> is_space (last s)"
  shows "strip s = s"
proof -
  have a: "dropWhile is_space s = s"
    using assms(1,2) by (rule dropWhile_id)
  have "rev s \<noteq> []" and "\<not> is_space (hd (rev s))"
    using assms(1,3) by (simp_all add: hd_rev)
  then have b: "dropWhile is_space (rev s) = rev s"
    by (rule dropWhile_id)
  show ?thesis
    by (simp add: strip_def a b)
qed

lemma last_digits_of: "is_digit (last (digits_of n))"
proof -
  have "last (digits_of n) \<in> set (digits_of n)"
    by (rule last_in_set [OF digits_of_not_empty])
  then show ?thesis
    by (rule digits_of_digits)
qed

lemma hd_digits_of: "is_digit (hd (digits_of n))"
proof -
  have "hd (digits_of n) \<in> set (digits_of n)"
    by (rule hd_in_set [OF digits_of_not_empty])
  then show ?thesis
    by (rule digits_of_digits)
qed

lemma py_int_str_int: "py_int (str_int i) = Some i"
proof (cases "i < 0")
  case True
  have minus: "\<not> is_space CHR ''-''"
    by (simp add: is_space_def)
  have "strip (CHR ''-'' # digits_of (nat (- i))) = CHR ''-'' # digits_of (nat (- i))"
    using last_digits_of [of "nat (- i)"] digits_of_not_empty [of "nat (- i)"] minus
    by (intro strip_id) (simp_all add: digit_not_space)
  then show ?thesis
    using True by (simp add: py_int_def str_int_def unsigned_digits_of)
next
  case False
  obtain c cs where cs: "digits_of (nat i) = c # cs"
    using digits_of_not_empty [of "nat i"] by (cases "digits_of (nat i)") auto
  have d: "is_digit c"
    using hd_digits_of [of "nat i"] by (simp add: cs)
  have "strip (digits_of (nat i)) = digits_of (nat i)"
    using last_digits_of [of "nat i"] hd_digits_of [of "nat i"] digits_of_not_empty [of "nat i"]
    by (intro strip_id) (simp_all add: digit_not_space)
  then have "py_int (digits_of (nat i)) = map_option int (unsigned (digits_of (nat i)))"
    using d by (auto simp: py_int_def cs is_digit_def)
  then show ?thesis
    using False by (simp add: str_int_def unsigned_digits_of)
qed

lemma split_no_sep: "c \<notin> set s \<Longrightarrow> split c s = [s]"
  by (induction s) auto

lemma split_at_sep: "c \<notin> set a \<Longrightarrow> split c (a @ c # s) = a # split c s"
  by (induction a) auto

lemma colon_not_in_str_int: "CHR '':'' \<notin> set (str_int i)"
  using digits_of_digits [of "CHR '':''"] by (auto simp: str_int_def is_digit_def)

lemma split_button:
  "CHR '':'' \<notin> set action \<Longrightarrow> split CHR '':'' (button action i) = [action, str_int i]"
  using split_at_sep [of "CHR '':''" action "str_int i"] colon_not_in_str_int [of i]
  by (simp add: button_def split_no_sep)


subsection \<open>A decision for a handle that is gone\<close>

lemma process_callback_gone:
  assumes "pending_approvals b msg_id = None"
  shows "snd (process_callback t callback_data msg_id b) = b"
  using assms by (simp add: process_callback_def Let_def split: option.splits)

lemma process_callback_button_gone:
  assumes "pending_approvals b msg_id = None" and "CHR '':'' \<notin> set action"
  shows "process_callback t (button action post_id) msg_id b = (Inr (), b)"
  using assms by (simp add: process_callback_def Let_def split_button py_int_str_int)

text \<open>
  Claim C5: for a handle that is no longer in \<open>_pending_approvals\<close>, whatever the
  callback data, \<open>process_callback\<close> leaves the whole state as it was: no
  continuation runs, the store is not written (no status transition, no audit
  entry), no message is edited; and for the data of the approve and reject buttons
  of any post it returns without raising.
\<close>

theorem late_decision_dropped:
  assumes "pending_approvals b msg_id = None"
  shows "snd (process_callback t callback_data msg_id b) = b \<and>
         process_callback t (button ''approve'' post_id) msg_id b = (Inr (), b) \<and>
         process_callback t (button ''reject'' post_id) msg_id b = (Inr (), b)"
  using assms by (simp add: process_callback_gone process_callback_button_gone)

text \<open>
  The theorem at a request that the timer has resolved: the approve button pressed
  afterwards changes nothing.
\<close>

lemma armed_bot_state:
  "armed_bot = (fresh_bot one_pending)
     \<lparr>bot_effects := [ApprovalRequest 1],
      pending_approvals := (\<lambda>m. None)(100 := Some \<lparr>ap_post_id = 1, ap_timer = True\<rparr>),
      timers := (\<lambda>m. None)(100 := Some 1)\<rparr>"
proof -
  obtain p where "get_post one_pending 1 = Some p"
    using one_pending_row by (cases "get_post one_pending 1") auto
  then show ?thesis
    by (simp add: armed_bot_def send_approval_request_def fresh_bot_def example_config_def)
qed

lemma resolved_bot_state:
  "pending_approvals resolved_bot = (\<lambda>m. None) \<and>
   bot_effects resolved_bot = [ApprovalRequest 1, EditMessage 100 AutoApproved, OnApproved 1] \<and>
   status_in resolved_bot 1 = Some ''auto_approved''"
proof -
  obtain p where p: "get_post one_pending 1 = Some p"
    using one_pending_row by (cases "get_post one_pending 1") auto
  show ?thesis
    by (simp add: resolved_bot_def armed_bot_state timer_expires_def auto_approve_def
          fresh_bot_def update_post_status_written [OF p] status_in_def
          get_post_write_post_status [OF p] status_set_post_fields)
qed

lemma buttons: "button ''approve'' 1 = ''approve:1''" "button ''info'' 1 = ''info:1''"
  by code_simp+

theorem late_decision_dropped_witness:
  "pending_approvals resolved_bot 100 = None \<and>
   bot_effects resolved_bot = [ApprovalRequest 1, EditMessage 100 AutoApproved, OnApproved 1] \<and>
   process_callback ''2024-05-01T09:06:00+00:00'' ''approve:1'' 100 resolved_bot
     = (Inr (), resolved_bot)"
proof -
  have gone: "pending_approvals resolved_bot 100 = None"
    by (simp add: resolved_bot_state)
  from late_decision_dropped [OF gone, of "''2024-05-01T09:06:00+00:00''" "''approve:1''" 1]
  show ?thesis
    using gone resolved_bot_state by (simp add: buttons)
qed

subsection \<open>The information button\<close>

lemma idle_bot:
  assumes "pending_approvals b = (\<lambda>m. None)" and "timers b = (\<lambda>m. None)"
  shows "handle_event t ev b = b"
proof (cases ev)
  case (Callback callback_data msg_id)
  then show ?thesis
    using assms(1) process_callback_gone [of b msg_id t callback_data] by simp
next
  case (TimerExpires msg_id)
  then show ?thesis
    using assms(2) by (simp add: timer_expires_def)
qed

lemma idle_bot_run:
  assumes "pending_approvals b = (\<lambda>m. None)" and "timers b = (\<lambda>m. None)"
  shows "run_events t evs b = b"
  unfolding run_events_def using assms
  by (induction evs) (simp_all add: idle_bot)

lemma info_button_state:
  "handle_event t (Callback (button ''info'' 1) 100) armed_bot
     = (fresh_bot one_pending)\<lparr>bot_effects := [ApprovalRequest 1]\<rparr>"
  by (simp add: process_callback_def Let_def split_button py_int_str_int armed_bot_state
        fresh_bot_def)

text \<open>
  Claim C4 says that for an item with an armed timer exactly one of the three
  continuations ever runs. The keyboard of the request has a third button, whose
  data is \<open>info:<id>\<close>. \<open>process_callback\<close> cancels the timer and deletes the
  pending entry before it looks at the action, and has no branch for \<open>info\<close>: after
  that button no sequence of later button presses and timer expiries runs any
  continuation for the post, and the post stays \<open>pending\<close>.
\<close>

theorem info_button_consumes_request:
  "pending_approvals armed_bot 100 = Some \<lparr>ap_post_id = 1, ap_timer = True\<rparr> \<and>
   timers armed_bot 100 = Some 1 \<and>
   continuations 1 (run_events t (Callback (button ''info'' 1) 100 # evs) armed_bot) = [] \<and>
   status_in (run_events t (Callback (button ''info'' 1) 100 # evs) armed_bot) 1 = Some ''pending''"
proof -
  let ?b = "(fresh_bot one_pending)\<lparr>bot_effects := [ApprovalRequest 1]\<rparr>"
  have "run_events t (Callback (button ''info'' 1) 100 # evs) armed_bot = run_events t evs ?b"
    using info_button_state [of t] by (simp add: run_events_def)
  also have "\<dots> = ?b"
    by (rule idle_bot_run) (simp_all add: fresh_bot_def)
  finally show ?thesis
    using one_pending_row
    by (simp add: armed_bot_state continuations_def status_in_def fresh_bot_def)
qed

text \<open>The theorem at the timer running out and the approve button pressed afterwards.\<close>

theorem info_button_consumes_request_witness:
  "continuations 1
     (run_events ''2024-05-01T09:05:00+00:00''
        [Callback ''info:1'' 100, TimerExpires 100, Callback ''approve:1'' 100] armed_bot) = [] \<and>
   status_in
     (run_events ''2024-05-01T09:05:00+00:00''
        [Callback ''info:1'' 100, TimerExpires 100, Callback ''approve:1'' 100] armed_bot) 1
     = Some ''pending''"
  using info_button_consumes_request [of "''2024-05-01T09:05:00+00:00''"
      "[TimerExpires 100, Callback ''approve:1'' 100]"]
  by (simp add: buttons)

end
